theory Spec2Isabelle
  imports Complex_Main
begin

section \<open>NumPy arrays: errors, indexing and broadcasting\<close>

text \<open>
  The module \<^verbatim>\<open>pandapower/estimation/algorithm/matrix_base.py\<close> evaluates the measurement
  function of a weighted-least-squares state estimator, its Jacobian and the zero-injection
  constraints. It is NumPy/SciPy code: one-dimensional arrays are lists here, a
  two-dimensional array or sparse matrix is a list of rows that carries its number of
  columns (so that an array without rows still has a shape), and every exception NumPy
  raises on the way (an index out of bounds, shapes that do not fit) is a value of
  \<open>py_error\<close>. Floating-point numbers are idealised: a \<^verbatim>\<open>float64\<close> is a \<open>real\<close>, a
  \<^verbatim>\<open>complex128\<close> is a \<open>complex\<close>; rounding, NaN and infinities are outside the model.
\<close>

datatype py_error = IndexError | ValueError

type_synonym rvec = "real list"
type_synonym cvec = "complex list"

definition res_bind :: "py_error + 'a \<Rightarrow> ('a \<Rightarrow> py_error + 'b) \<Rightarrow> py_error + 'b" where
  "res_bind m f = (case m of Inl e \<Rightarrow> Inl e | Inr x \<Rightarrow> f x)"

text \<open>An integer index into an axis of length \<open>n\<close>: negative indices count from the end,
  anything outside \<open>[-n, n)\<close> raises IndexError.\<close>

definition norm_index :: "nat \<Rightarrow> int \<Rightarrow> py_error + nat" where
  "norm_index n i =
     (if 0 \<le> i \<and> i < int n then Inr (nat i)
      else if - int n \<le> i \<and> i < 0 then Inr (nat (i + int n))
      else Inl IndexError)"

fun norm_indices :: "nat \<Rightarrow> int list \<Rightarrow> py_error + nat list" where
  "norm_indices n [] = Inr []"
| "norm_indices n (i # idx) =
     (case norm_index n i of
        Inl e \<Rightarrow> Inl e
      | Inr j \<Rightarrow> (case norm_indices n idx of Inl e \<Rightarrow> Inl e | Inr js \<Rightarrow> Inr (j # js)))"

text \<open>\<^verbatim>\<open>xs[idx]\<close> with an integer index array.\<close>

definition take_idx :: "'a list \<Rightarrow> int list \<Rightarrow> py_error + 'a list" where
  "take_idx xs idx = res_bind (norm_indices (length xs) idx) (\<lambda>js. Inr (map (\<lambda>j. xs ! j) js))"

text \<open>\<^verbatim>\<open>xs[mask]\<close> with a boolean array: the mask must be as long as the axis.\<close>

definition mask_idx :: "'a list \<Rightarrow> bool list \<Rightarrow> py_error + 'a list" where
  "mask_idx xs msk =
     (if length msk = length xs then Inr (map fst (filter snd (zip xs msk)))
      else Inl IndexError)"

text \<open>\<^verbatim>\<open>np.flatnonzero(mask)\<close>: the indices of the true entries, increasing.\<close>

definition flatnonzero :: "bool list \<Rightarrow> nat list" where
  "flatnonzero msk = filter (\<lambda>i. msk ! i) [0..<length msk]"

text \<open>\<^verbatim>\<open>xs[idx] = vals\<close>: the values are broadcast to the shape of the index array (equal
  length, or a single value), all indices are checked before anything is written, and of
  two writes to one position the later one stays.\<close>

definition setitem :: "'a list \<Rightarrow> int list \<Rightarrow> 'a list \<Rightarrow> py_error + 'a list" where
  "setitem xs idx vals =
     (if length vals \<noteq> length idx \<and> length vals \<noteq> 1 then Inl ValueError
      else res_bind (norm_indices (length xs) idx) (\<lambda>js.
        Inr (fold (\<lambda>(j, x) acc. acc[j := x])
               (zip js (if length vals = length idx then vals
                        else replicate (length idx) (hd vals)))
               xs)))"

text \<open>An elementwise binary operation on two one-dimensional arrays, with NumPy's
  broadcasting: equal lengths, or one operand of length one.\<close>

definition broadcast2 :: "('a \<Rightarrow> 'b \<Rightarrow> 'c) \<Rightarrow> 'a list \<Rightarrow> 'b list \<Rightarrow> py_error + 'c list" where
  "broadcast2 f xs ys =
     (if length xs = length ys then Inr (map2 f xs ys)
      else if length xs = 1 then Inr (map (f (hd xs)) ys)
      else if length ys = 1 then Inr (map (\<lambda>x. f x (hd ys)) xs)
      else Inl ValueError)"

subsection \<open>Matrices\<close>

datatype 'a matrix = Matrix (ncols: nat) (mrows: "'a list list")

definition nrows :: "'a matrix \<Rightarrow> nat" where
  "nrows M = length (mrows M)"

definition has_shape :: "nat \<Rightarrow> nat \<Rightarrow> 'a matrix \<Rightarrow> bool" where
  "has_shape r c M \<longleftrightarrow> nrows M = r \<and> ncols M = c \<and> list_all (\<lambda>row. length row = c) (mrows M)"

definition map_entries :: "('a \<Rightarrow> 'b) \<Rightarrow> 'a matrix \<Rightarrow> 'b matrix" where
  "map_entries f M = Matrix (ncols M) (map (map f) (mrows M))"

text \<open>\<^verbatim>\<open>M * x\<close> for a SciPy sparse matrix and a one-dimensional array: the matrix-vector
  product, \<^verbatim>\<open>ValueError('dimension mismatch')\<close> unless the lengths fit.\<close>

definition spmv :: "complex matrix \<Rightarrow> cvec \<Rightarrow> py_error + cvec" where
  "spmv M x =
     (if length x = ncols M then Inr (map (\<lambda>row. sum_list (map2 (*) row x)) (mrows M))
      else Inl ValueError)"

section \<open>The algebra object\<close>

text \<open>
  \<open>eppci\<close> holds what \<^verbatim>\<open>BaseAlgebra.__init__\<close> reads from the \<^verbatim>\<open>ExtendedPPCI\<close>: the branch
  table reduced to its \<^verbatim>\<open>F_BUS\<close> and \<^verbatim>\<open>T_BUS\<close> columns (after \<^verbatim>\<open>.real.astype(int)\<close>), the
  number of rows of the bus table, and the precomputed masks and vectors.
\<close>

record eppci =
  e_branch :: "(int \<times> int) list"
  e_bus_rows :: nat
  e_baseMVA :: real
  e_bus_baseKV :: rvec
  e_num_non_slack_bus :: nat
  e_non_slack_buses :: "int list"
  e_delta_v_bus_mask :: "bool list"
  e_non_nan_meas_mask :: "bool list"
  e_any_i_meas :: bool
  e_z :: rvec
  e_r_cov :: rvec
  e_v_init :: rvec
  e_delta_init :: rvec

record algebra =
  eppci_branch :: "(int \<times> int) list"
  fb :: "int list"
  tb :: "int list"
  n_bus :: nat
  n_branch :: nat
  baseMVA :: real
  bus_baseKV :: rvec
  num_non_slack_bus :: nat
  non_slack_buses :: "int list"
  delta_v_bus_mask :: "bool list"
  non_nan_meas_mask :: "bool list"
  any_i_meas :: bool
  delta_v_bus_selector :: "nat list"
  non_nan_meas_selector :: "nat list"
  z :: rvec
  sigma :: rvec
  Ybus :: "complex matrix"
  Yf :: "complex matrix"
  Yt :: "complex matrix"
  v :: rvec
  delta :: rvec

text \<open>\<^verbatim>\<open>BaseAlgebra.__init__\<close>. The admittance builder \<^verbatim>\<open>makeYbus\<close> belongs to another module;
  it is a parameter that returns \<open>(Ybus, Yf, Yt)\<close>.\<close>

definition BaseAlgebra_init ::
  "(eppci \<Rightarrow> complex matrix \<times> complex matrix \<times> complex matrix) \<Rightarrow> eppci \<Rightarrow> algebra" where
  "BaseAlgebra_init makeYbus ep =
     (case makeYbus ep of (Yb, Yff, Ytt) \<Rightarrow>
       \<lparr> eppci_branch = e_branch ep,
         fb = map fst (e_branch ep),
         tb = map snd (e_branch ep),
         n_bus = e_bus_rows ep,
         n_branch = length (e_branch ep),
         baseMVA = e_baseMVA ep,
         bus_baseKV = e_bus_baseKV ep,
         num_non_slack_bus = e_num_non_slack_bus ep,
         non_slack_buses = e_non_slack_buses ep,
         delta_v_bus_mask = e_delta_v_bus_mask ep,
         non_nan_meas_mask = e_non_nan_meas_mask ep,
         any_i_meas = e_any_i_meas ep,
         delta_v_bus_selector = flatnonzero (e_delta_v_bus_mask ep),
         non_nan_meas_selector = flatnonzero (e_non_nan_meas_mask ep),
         z = e_z ep,
         sigma = e_r_cov ep,
         Ybus = Yb, Yf = Yff, Yt = Ytt,
         v = e_v_init ep,
         delta = e_delta_init ep \<rparr>)"

section \<open>Decoding the state vector and the measurement function\<close>

text \<open>
  An operation of the object returns its result (or the exception) together with the object
  after the call: \<^verbatim>\<open>_e2v\<close> rebinds \<^verbatim>\<open>self.v\<close> and writes into \<^verbatim>\<open>self.delta\<close> in place, and what
  it has written stays when a later step raises.
\<close>

definition e2v :: "algebra \<Rightarrow> rvec \<Rightarrow> (py_error + rvec \<times> rvec) \<times> algebra" where
  "e2v a E =
     (let a1 = a\<lparr>v := drop (num_non_slack_bus a) E\<rparr> in
      case setitem (delta a1) (non_slack_buses a1) (take (num_non_slack_bus a1) E) of
        Inl e \<Rightarrow> (Inl e, a1)
      | Inr d \<Rightarrow> (Inr (v a1, d), a1\<lparr>delta := d\<rparr>))"

text \<open>\<^verbatim>\<open>V = v * np.exp(1j * delta)\<close>\<close>

definition voltage :: "rvec \<Rightarrow> rvec \<Rightarrow> py_error + cvec" where
  "voltage vm dl = broadcast2 (\<lambda>m e. complex_of_real m * e) vm
                     (map (\<lambda>d. exp (\<i> * complex_of_real d)) dl)"

text \<open>The body of \<^verbatim>\<open>create_hx\<close> after the decode step, in the order Python evaluates it.\<close>

definition hx_of :: "algebra \<Rightarrow> rvec \<Rightarrow> rvec \<Rightarrow> py_error + rvec" where
  "hx_of a vm dl =
     res_bind (voltage vm dl) (\<lambda>V.
     res_bind (take_idx V (fb a)) (\<lambda>Vf.
     res_bind (spmv (Yf a) V) (\<lambda>YfV.
     res_bind (broadcast2 (*) Vf (map cnj YfV)) (\<lambda>Sfe.
     res_bind (take_idx V (tb a)) (\<lambda>Vt.
     res_bind (spmv (Yt a) V) (\<lambda>YtV.
     res_bind (broadcast2 (*) Vt (map cnj YtV)) (\<lambda>Ste.
     res_bind (spmv (Ybus a) V) (\<lambda>YbV.
     res_bind (broadcast2 (*) V (map cnj YbV)) (\<lambda>Sbuse.
     res_bind (spmv (Yf a) V) (\<lambda>Ife.
     res_bind (spmv (Yt a) V) (\<lambda>Ite.
       mask_idx (map Re Sbuse @ map Re Sfe @ map Re Ste @
                 map Im Sbuse @ map Im Sfe @ map Im Ste @
                 vm @ map cmod Ife @ map cmod Ite)
                (non_nan_meas_mask a))))))))))))"

definition create_hx :: "algebra \<Rightarrow> rvec \<Rightarrow> (py_error + rvec) \<times> algebra" where
  "create_hx a E =
     (case e2v a E of
        (Inl e, a') \<Rightarrow> (Inl e, a')
      | (Inr (vm, dl), a') \<Rightarrow> (hx_of a' vm dl, a'))"

text \<open>\<^verbatim>\<open>(self.z - hx).ravel()\<close>\<close>

definition create_rx :: "algebra \<Rightarrow> rvec \<Rightarrow> (py_error + rvec) \<times> algebra" where
  "create_rx a E =
     (case create_hx a E of
        (Inl e, a') \<Rightarrow> (Inl e, a')
      | (Inr hx, a') \<Rightarrow> (broadcast2 (-) (z a') hx, a'))"

section \<open>The Jacobian of the measurement function\<close>

subsection \<open>Stacking and projecting\<close>

text \<open>\<^verbatim>\<open>scipy.sparse.vstack\<close> and \<^verbatim>\<open>hstack\<close>; \<^verbatim>\<open>np.r_\<close> and \<^verbatim>\<open>np.c_\<close> do the same on dense
  two-dimensional arrays. Blocks whose other dimension differs raise ValueError.\<close>

fun vstack :: "'a matrix list \<Rightarrow> py_error + 'a matrix" where
  "vstack [] = Inl ValueError"
| "vstack [M] = Inr M"
| "vstack (M # Ms) =
     res_bind (vstack Ms) (\<lambda>N.
       if ncols M = ncols N then Inr (Matrix (ncols M) (mrows M @ mrows N))
       else Inl ValueError)"

fun hstack :: "'a matrix list \<Rightarrow> py_error + 'a matrix" where
  "hstack [] = Inl ValueError"
| "hstack [M] = Inr M"
| "hstack (M # Ms) =
     res_bind (hstack Ms) (\<lambda>N.
       if nrows M = nrows N then Inr (Matrix (ncols M + ncols N) (map2 (@) (mrows M) (mrows N)))
       else Inl ValueError)"

definition np_r :: "'a matrix list \<Rightarrow> py_error + 'a matrix" where
  "np_r Ms = vstack Ms"

definition np_c :: "'a matrix list \<Rightarrow> py_error + 'a matrix" where
  "np_c Ms = hstack Ms"

text \<open>\<^verbatim>\<open>jac[selector, :]\<close> and \<^verbatim>\<open>jac[:, selector]\<close> with the index form of a mask.\<close>

definition select_rows :: "'a matrix \<Rightarrow> nat list \<Rightarrow> py_error + 'a matrix" where
  "select_rows M idx =
     (if list_all (\<lambda>i. i < nrows M) idx then Inr (Matrix (ncols M) (map (\<lambda>i. mrows M ! i) idx))
      else Inl IndexError)"

definition select_cols :: "'a matrix \<Rightarrow> nat list \<Rightarrow> py_error + 'a matrix" where
  "select_cols M idx =
     (if list_all (\<lambda>j. j < ncols M) idx
      then Inr (Matrix (length idx) (map (\<lambda>row. map (\<lambda>j. row ! j) idx) (mrows M)))
      else Inl IndexError)"

text \<open>\<^verbatim>\<open>A[mask, :]\<close> and \<^verbatim>\<open>A[:, mask]\<close> with the boolean mask itself, on a dense array.\<close>

definition mask_rows :: "'a matrix \<Rightarrow> bool list \<Rightarrow> py_error + 'a matrix" where
  "mask_rows M msk =
     (if length msk = nrows M then Inr (Matrix (ncols M) (map fst (filter snd (zip (mrows M) msk))))
      else Inl IndexError)"

definition mask_cols :: "'a matrix \<Rightarrow> bool list \<Rightarrow> py_error + 'a matrix" where
  "mask_cols M msk =
     (if length msk = ncols M
      then Inr (Matrix (length (filter id msk))
                  (map (\<lambda>row. map fst (filter snd (zip row msk))) (mrows M)))
      else Inl IndexError)"

text \<open>\<^verbatim>\<open>A[idx]\<close> on a dense two-dimensional array: rows by integer index.\<close>

definition take_rows :: "'a matrix \<Rightarrow> int list \<Rightarrow> py_error + 'a matrix" where
  "take_rows M idx =
     res_bind (norm_indices (nrows M) idx) (\<lambda>js. Inr (Matrix (ncols M) (map (\<lambda>j. mrows M ! j) js)))"

text \<open>An elementwise operation of a two-dimensional array with a column
  (\<^verbatim>\<open>x.reshape((-1, 1))\<close>), broadcast along the columns.\<close>

definition bcast_col :: "('a \<Rightarrow> 'b \<Rightarrow> 'c) \<Rightarrow> 'a matrix \<Rightarrow> 'b list \<Rightarrow> py_error + 'c matrix" where
  "bcast_col f M xs =
     (if nrows M = length xs
      then Inr (Matrix (ncols M) (map2 (\<lambda>row x. map (\<lambda>y. f y x) row) (mrows M) xs))
      else if length xs = 1
      then Inr (Matrix (ncols M) (map (map (\<lambda>y. f y (hd xs))) (mrows M)))
      else if nrows M = 1
      then Inr (Matrix (ncols M) (map (\<lambda>x. map (\<lambda>y. f y x) (hd (mrows M))) xs))
      else Inl ValueError)"

definition zeros :: "nat \<Rightarrow> nat \<Rightarrow> real matrix" where
  "zeros r c = Matrix c (replicate r (replicate c 0))"

definition eye :: "nat \<Rightarrow> real matrix" where
  "eye n = Matrix n (map (\<lambda>i. map (\<lambda>j. if i = j then 1 else 0) [0..<n]) [0..<n])"

definition zeros_like :: "complex matrix \<Rightarrow> complex matrix" where
  "zeros_like M = map_entries (\<lambda>x. 0) M"

subsection \<open>The derivative services\<close>

text \<open>
  \<^verbatim>\<open>dSbus_dV\<close>, \<^verbatim>\<open>dSbr_dV\<close> and \<^verbatim>\<open>dIbr_dV\<close> are imported from \<^verbatim>\<open>pandapower.pypower\<close>; the
  module under verification only calls them. They are parameters of the model, collected
  in \<open>pfa\<close>. \<^verbatim>\<open>dSbus_dV(Ybus, V)\<close> returns the pair (magnitude derivative, angle derivative);
  the two branch services return (from/angle, from/magnitude, to/angle, to/magnitude) and
  the two branch quantities themselves.
\<close>

type_synonym br_result =
  "complex matrix \<times> complex matrix \<times> complex matrix \<times> complex matrix \<times> cvec \<times> cvec"

record pfa =
  dSbus_dV :: "complex matrix \<Rightarrow> cvec \<Rightarrow> py_error + complex matrix \<times> complex matrix"
  dSbr_dV :: "(int \<times> int) list \<Rightarrow> complex matrix \<Rightarrow> complex matrix \<Rightarrow> cvec \<Rightarrow> py_error + br_result"
  dIbr_dV :: "(int \<times> int) list \<Rightarrow> complex matrix \<Rightarrow> complex matrix \<Rightarrow> cvec \<Rightarrow> py_error + br_result"

definition dSbus_dv :: "pfa \<Rightarrow> algebra \<Rightarrow> cvec \<Rightarrow> py_error + complex matrix \<times> complex matrix" where
  "dSbus_dv P a V =
     res_bind (dSbus_dV P (Ybus a) V) (\<lambda>(dSb_dv, dSb_dth). Inr (dSb_dth, dSb_dv))"

definition dSbr_dv ::
  "pfa \<Rightarrow> algebra \<Rightarrow> cvec \<Rightarrow>
   py_error + complex matrix \<times> complex matrix \<times> complex matrix \<times> complex matrix" where
  "dSbr_dv P a V =
     res_bind (dSbr_dV P (eppci_branch a) (Yf a) (Yt a) V)
       (\<lambda>(dSf_dth, dSf_dv, dSt_dth, dSt_dv, Sf, St). Inr (dSf_dth, dSf_dv, dSt_dth, dSt_dv))"

definition dVbus_dv :: "cvec \<Rightarrow> real matrix \<times> real matrix" where
  "dVbus_dv V = (zeros (length V) (length V), eye (length V))"

text \<open>One line of \<^verbatim>\<open>_dibr_dv\<close>:
  \<^verbatim>\<open>(np.abs(1e-5 * dI + I.reshape((-1, 1))) - np.abs(I.reshape((-1, 1)))) / 1e-5\<close>\<close>

definition dibr_block :: "complex matrix \<Rightarrow> cvec \<Rightarrow> py_error + real matrix" where
  "dibr_block dI Ibr =
     res_bind (bcast_col (+) (map_entries (\<lambda>x. complex_of_real (1 / 10 ^ 5) * x) dI) Ibr) (\<lambda>A.
     res_bind (bcast_col (-) (map_entries cmod A) (map cmod Ibr)) (\<lambda>B.
       Inr (map_entries (\<lambda>x. x / (1 / 10 ^ 5)) B)))"

definition dibr_dv ::
  "pfa \<Rightarrow> algebra \<Rightarrow> cvec \<Rightarrow> py_error + real matrix \<times> real matrix \<times> real matrix \<times> real matrix" where
  "dibr_dv P a V =
     res_bind (dIbr_dV P (eppci_branch a) (Yf a) (Yt a) V)
       (\<lambda>(dIf_dth, dIf_dv, dIt_dth, dIt_dv, Ifr, Ito).
     res_bind (dibr_block dIf_dth Ifr) (\<lambda>dif_dth.
     res_bind (dibr_block dIf_dv Ifr) (\<lambda>dif_dv.
     res_bind (dibr_block dIt_dth Ito) (\<lambda>dit_dth.
     res_bind (dibr_block dIt_dv Ito) (\<lambda>dit_dv.
       Inr (dif_dth, dif_dv, dit_dth, dit_dv))))))"

subsection \<open>\<^verbatim>\<open>BaseAlgebra.create_hx_jacobian\<close>\<close>

text \<open>The stacked matrix before the projection, with the gate on \<^verbatim>\<open>any_i_meas\<close>.\<close>

definition jac_stack :: "pfa \<Rightarrow> algebra \<Rightarrow> rvec \<Rightarrow> rvec \<Rightarrow> py_error + real matrix" where
  "jac_stack P a vm dl =
     res_bind (voltage vm dl) (\<lambda>V.
     res_bind (dSbus_dv P a V) (\<lambda>(dSb_dth, dSb_dv).
     res_bind (dSbr_dv P a V) (\<lambda>(dSf_dth, dSf_dv, dSt_dth, dSt_dv).
     case dVbus_dv V of (dv_dth, dv_dv) \<Rightarrow>
     res_bind (vstack [map_entries Re dSb_dth, map_entries Re dSf_dth, map_entries Re dSt_dth,
                       map_entries Im dSb_dth, map_entries Im dSf_dth, map_entries Im dSt_dth])
       (\<lambda>s_jac_th.
     res_bind (vstack [map_entries Re dSb_dv, map_entries Re dSf_dv, map_entries Re dSt_dv,
                       map_entries Im dSb_dv, map_entries Im dSf_dv, map_entries Im dSt_dv])
       (\<lambda>s_jac_v.
     res_bind (hstack [s_jac_th, s_jac_v]) (\<lambda>s_jac.
     res_bind (hstack [dv_dth, dv_dv]) (\<lambda>v_jac.
       if any_i_meas a then
         res_bind (dibr_dv P a V) (\<lambda>(dif_dth, dif_dv, dit_dth, dit_dv).
         res_bind (hstack [dif_dth, dif_dv]) (\<lambda>i_from.
         res_bind (hstack [dit_dth, dit_dv]) (\<lambda>i_to.
         res_bind (vstack [i_from, i_to]) (\<lambda>i_jac.
           vstack [s_jac, v_jac, i_jac]))))
       else vstack [s_jac, v_jac])))))))"

definition project :: "algebra \<Rightarrow> 'a matrix \<Rightarrow> py_error + 'a matrix" where
  "project a jac =
     res_bind (select_rows jac (non_nan_meas_selector a)) (\<lambda>rws.
       select_cols rws (delta_v_bus_selector a))"

definition create_hx_jacobian :: "pfa \<Rightarrow> algebra \<Rightarrow> rvec \<Rightarrow> (py_error + real matrix) \<times> algebra" where
  "create_hx_jacobian P a E =
     (case e2v a E of
        (Inl e, a') \<Rightarrow> (Inl e, a')
      | (Inr (vm, dl), a') \<Rightarrow> (res_bind (jac_stack P a' vm dl) (project a'), a'))"

section \<open>Zero-injection constraints\<close>

definition cx_of :: "algebra \<Rightarrow> rvec \<Rightarrow> rvec \<Rightarrow> int list \<Rightarrow> int list \<Rightarrow> py_error + rvec" where
  "cx_of a vm dl p_zero_inj q_zero_inj =
     res_bind (voltage vm dl) (\<lambda>V.
     res_bind (spmv (Ybus a) V) (\<lambda>YbV.
     res_bind (broadcast2 (*) V (map cnj YbV)) (\<lambda>Sbus.
     res_bind (take_idx Sbus p_zero_inj) (\<lambda>Sp.
     res_bind (take_idx Sbus q_zero_inj) (\<lambda>Sq.
       Inr (map (\<lambda>x. x * baseMVA a) (map Re Sp @ map Im Sq)))))))"

definition create_cx ::
  "algebra \<Rightarrow> rvec \<Rightarrow> int list \<Rightarrow> int list \<Rightarrow> (py_error + rvec) \<times> algebra" where
  "create_cx a E p_zero_inj q_zero_inj =
     (case e2v a E of
        (Inl e, a') \<Rightarrow> (Inl e, a')
      | (Inr (vm, dl), a') \<Rightarrow> (cx_of a' vm dl p_zero_inj q_zero_inj, a'))"

definition cx_jacobian_of ::
  "pfa \<Rightarrow> algebra \<Rightarrow> rvec \<Rightarrow> rvec \<Rightarrow> int list \<Rightarrow> int list \<Rightarrow> py_error + real matrix" where
  "cx_jacobian_of P a vm dl p_zero_inj q_zero_inj =
     res_bind (voltage vm dl) (\<lambda>V.
     res_bind (dSbus_dv P a V) (\<lambda>(dSb_dth, dSb_dv).
     res_bind (take_rows (map_entries Re dSb_dth) p_zero_inj) (\<lambda>th_p.
     res_bind (take_rows (map_entries Im dSb_dth) q_zero_inj) (\<lambda>th_q.
     res_bind (np_r [th_p, th_q]) (\<lambda>c_jac_th.
     res_bind (take_rows (map_entries Re dSb_dv) p_zero_inj) (\<lambda>v_p.
     res_bind (take_rows (map_entries Im dSb_dv) q_zero_inj) (\<lambda>v_q.
     res_bind (np_r [v_p, v_q]) (\<lambda>c_jac_v.
     res_bind (np_c [c_jac_th, c_jac_v]) (\<lambda>c_jac.
       mask_cols c_jac (delta_v_bus_mask a))))))))))"

definition create_cx_jacobian ::
  "pfa \<Rightarrow> algebra \<Rightarrow> rvec \<Rightarrow> int list \<Rightarrow> int list \<Rightarrow> (py_error + real matrix) \<times> algebra" where
  "create_cx_jacobian P a E p_zero_inj q_zero_inj =
     (case e2v a E of
        (Inl e, a') \<Rightarrow> (Inl e, a')
      | (Inr (vm, dl), a') \<Rightarrow> (cx_jacobian_of P a' vm dl p_zero_inj q_zero_inj, a'))"

section \<open>The decoupled variant\<close>

text \<open>
  \<^verbatim>\<open>BaseAlgebraDecoupled.create_hx_jacobian\<close> builds the Jacobian from dense arrays with
  \<^verbatim>\<open>np.r_\<close> and \<^verbatim>\<open>np.c_\<close>. It converts the power and the current blocks with \<^verbatim>\<open>toarray()\<close>, but
  the two voltage blocks come from \<^verbatim>\<open>_dVbus_dv\<close> as SciPy sparse matrices and go into
  \<^verbatim>\<open>np.c_[dv_dth, dv_dv]\<close> as they are. NumPy does not know sparse matrices: \<^verbatim>\<open>np.c_\<close> wraps
  each one with \<^verbatim>\<open>np.array(item, ndmin=2)\<close>, which is a \<open>1 \<times> 1\<close> array of dtype \<^verbatim>\<open>object\<close> holding
  the matrix, and concatenates these to one row of two objects. The cells of the final array
  are therefore numbers or such objects.
\<close>

datatype cell = Number complex | SparseObject "real matrix"

definition np_c_sparse :: "real matrix list \<Rightarrow> cell matrix" where
  "np_c_sparse Ms = Matrix (length Ms) [map SparseObject Ms]"

definition decoupled_jacobian_of ::
  "pfa \<Rightarrow> algebra \<Rightarrow> rvec \<Rightarrow> rvec \<Rightarrow> py_error + cell matrix" where
  "decoupled_jacobian_of P a vm dl =
     res_bind (voltage vm dl) (\<lambda>V.
     res_bind (dSbus_dv P a V) (\<lambda>(dSb_dth, dSb_dv).
     res_bind (dSbr_dv P a V) (\<lambda>(dSf_dth, dSf_dv, dSt_dth, dSt_dv).
     res_bind (dibr_dv P a V) (\<lambda>(dif_dth, dif_dv, dit_dth, dit_dv).
     case dVbus_dv V of (dv_dth, dv_dv) \<Rightarrow>
     res_bind (np_r [map_entries (\<lambda>x. complex_of_real (Re x)) dSb_dth,
                     map_entries (\<lambda>x. complex_of_real (Re x)) dSf_dth,
                     map_entries (\<lambda>x. complex_of_real (Re x)) dSt_dth,
                     zeros_like dSb_dth, zeros_like dSf_dth, zeros_like dSt_dth])
       (\<lambda>s_jac_th.
     res_bind (np_r [zeros_like dSb_dv, zeros_like dSf_dv, zeros_like dSt_dv,
                     map_entries (\<lambda>x. complex_of_real (Im x)) dSb_dv,
                     map_entries (\<lambda>x. complex_of_real (Im x)) dSf_dv,
                     map_entries (\<lambda>x. complex_of_real (Im x)) dSt_dv])
       (\<lambda>s_jac_v.
     res_bind (np_c [s_jac_th, s_jac_v]) (\<lambda>s_jac.
     let v_jac = np_c_sparse [dv_dth, dv_dv] in
     res_bind (np_c [dif_dth, dif_dv]) (\<lambda>i_from.
     res_bind (np_c [dit_dth, dit_dv]) (\<lambda>i_to.
     res_bind (np_r [i_from, i_to]) (\<lambda>i_jac.
     res_bind (np_r [map_entries Number s_jac, v_jac,
                     map_entries (\<lambda>x. Number (complex_of_real x)) i_jac]) (\<lambda>jac.
     res_bind (mask_rows jac (non_nan_meas_mask a)) (\<lambda>rws.
       mask_cols rws (delta_v_bus_mask a)))))))))))))"

definition create_hx_jacobian_decoupled ::
  "pfa \<Rightarrow> algebra \<Rightarrow> rvec \<Rightarrow> (py_error + cell matrix) \<times> algebra" where
  "create_hx_jacobian_decoupled P a E =
     (case e2v a E of
        (Inl e, a') \<Rightarrow> (Inl e, a')
      | (Inr (vm, dl), a') \<Rightarrow> (decoupled_jacobian_of P a' vm dl, a'))"

section \<open>Consistent inputs and the quantities of the specification\<close>

text \<open>
  The set-up stage is trusted to hand over shapes that fit: the admittance matrices are
  \<open>n_bus \<times> n_bus\<close> and \<open>n_branch \<times> n_bus\<close>, \<open>fb\<close> and \<open>tb\<close> are the two columns of the branch
  table, every bus index is a bus, the angle vector has one
  entry per bus, the measurement mask covers the \<open>3 n_bus + 6 n_branch\<close> measurement slots
  and the state mask the \<open>2 n_bus\<close> state slots, the selectors are the index forms of the
  masks (as \<open>BaseAlgebra_init\<close> computes them), and \<open>any_i_meas\<close> is false only if no
  current-magnitude slot is observed.
\<close>

definition consistent :: "algebra \<Rightarrow> bool" where
  "consistent a \<longleftrightarrow>
     has_shape (n_bus a) (n_bus a) (Ybus a) \<and>
     has_shape (n_branch a) (n_bus a) (Yf a) \<and>
     has_shape (n_branch a) (n_bus a) (Yt a) \<and>
     map fst (eppci_branch a) = fb a \<and> map snd (eppci_branch a) = tb a \<and>
     length (fb a) = n_branch a \<and> length (tb a) = n_branch a \<and>
     list_all (\<lambda>i. 0 \<le> i \<and> i < int (n_bus a)) (fb a) \<and>
     list_all (\<lambda>i. 0 \<le> i \<and> i < int (n_bus a)) (tb a) \<and>
     length (delta a) = n_bus a \<and>
     length (non_slack_buses a) = num_non_slack_bus a \<and>
     list_all (\<lambda>i. 0 \<le> i \<and> i < int (n_bus a)) (non_slack_buses a) \<and>
     length (non_nan_meas_mask a) = 3 * n_bus a + 6 * n_branch a \<and>
     length (delta_v_bus_mask a) = 2 * n_bus a \<and>
     non_nan_meas_selector a = flatnonzero (non_nan_meas_mask a) \<and>
     delta_v_bus_selector a = flatnonzero (delta_v_bus_mask a)"

text \<open>No current-magnitude slot is observed: every true position of the measurement mask
  lies before the \<open>2 n_branch\<close> current slots at the end of the measurement space.\<close>

definition no_current_slot :: "algebra \<Rightarrow> bool" where
  "no_current_slot a \<longleftrightarrow>
     list_all (\<lambda>i. i < 3 * n_bus a + 4 * n_branch a) (flatnonzero (non_nan_meas_mask a))"

text \<open>What the module relies on from the derivative services: on a voltage vector with one
  entry per bus they return, without raising, blocks with one row per bus (or branch) and
  one column per bus, and a current per branch.\<close>

definition pfa_shapes :: "pfa \<Rightarrow> algebra \<Rightarrow> cvec \<Rightarrow> bool" where
  "pfa_shapes P a V \<longleftrightarrow>
     (case dSbus_dV P (Ybus a) V of
        Inl e \<Rightarrow> False
      | Inr (dS_dVm, dS_dVa) \<Rightarrow>
          has_shape (n_bus a) (n_bus a) dS_dVm \<and> has_shape (n_bus a) (n_bus a) dS_dVa) \<and>
     (case dSbr_dV P (eppci_branch a) (Yf a) (Yt a) V of
        Inl e \<Rightarrow> False
      | Inr (dSf_dVa, dSf_dVm, dSt_dVa, dSt_dVm, Sf, St) \<Rightarrow>
          has_shape (n_branch a) (n_bus a) dSf_dVa \<and> has_shape (n_branch a) (n_bus a) dSf_dVm \<and>
          has_shape (n_branch a) (n_bus a) dSt_dVa \<and> has_shape (n_branch a) (n_bus a) dSt_dVm) \<and>
     (case dIbr_dV P (eppci_branch a) (Yf a) (Yt a) V of
        Inl e \<Rightarrow> False
      | Inr (dIf_dVa, dIf_dVm, dIt_dVa, dIt_dVm, Ifr, Ito) \<Rightarrow>
          has_shape (n_branch a) (n_bus a) dIf_dVa \<and> has_shape (n_branch a) (n_bus a) dIf_dVm \<and>
          has_shape (n_branch a) (n_bus a) dIt_dVa \<and> has_shape (n_branch a) (n_bus a) dIt_dVm \<and>
          length Ifr = n_branch a \<and> length Ito = n_branch a)"

definition pfa_ok :: "pfa \<Rightarrow> algebra \<Rightarrow> bool" where
  "pfa_ok P a \<longleftrightarrow> (\<forall>V. length V = n_bus a \<longrightarrow> pfa_shapes P a V)"

definition entry :: "'a matrix \<Rightarrow> nat \<Rightarrow> nat \<Rightarrow> 'a" where
  "entry M i j = mrows M ! i ! j"

text \<open>The complex bus voltages \<open>V = v \<cdot> exp(i \<cdot> delta)\<close>, entry by entry.\<close>

definition V_spec :: "rvec \<Rightarrow> rvec \<Rightarrow> cvec" where
  "V_spec vm dl =
     map (\<lambda>k. complex_of_real (vm ! k) * exp (\<i> * complex_of_real (dl ! k))) [0..<length vm]"

text \<open>The current \<open>(Y \<cdot> V)\<^sub>i\<close>, the bus injection \<open>V\<^sub>i \<cdot> conj((Ybus \<cdot> V)\<^sub>i)\<close> and the branch flow
  \<open>V\<^sub>e \<cdot> conj((Y \<cdot> V)\<^sub>i)\<close> at the end bus \<open>e\<close> of branch \<open>i\<close>.\<close>

definition I_spec :: "complex matrix \<Rightarrow> cvec \<Rightarrow> nat \<Rightarrow> complex" where
  "I_spec Y V i = (\<Sum>k<length V. entry Y i k * V ! k)"

definition S_bus_spec :: "complex matrix \<Rightarrow> cvec \<Rightarrow> nat \<Rightarrow> complex" where
  "S_bus_spec Y V i = V ! i * cnj (I_spec Y V i)"

definition S_br_spec :: "complex matrix \<Rightarrow> int list \<Rightarrow> cvec \<Rightarrow> nat \<Rightarrow> complex" where
  "S_br_spec Y ends V i = V ! nat (ends ! i) * cnj (I_spec Y V i)"

text \<open>The full measurement vector in the canonical order
  \<open>[Re S_bus, Re S_from, Re S_to, Im S_bus, Im S_from, Im S_to, v, |I_from|, |I_to|]\<close>.\<close>

definition hx_spec :: "algebra \<Rightarrow> rvec \<Rightarrow> cvec \<Rightarrow> rvec" where
  "hx_spec a vm V =
     map (\<lambda>i. Re (S_bus_spec (Ybus a) V i)) [0..<n_bus a] @
     map (\<lambda>i. Re (S_br_spec (Yf a) (fb a) V i)) [0..<n_branch a] @
     map (\<lambda>i. Re (S_br_spec (Yt a) (tb a) V i)) [0..<n_branch a] @
     map (\<lambda>i. Im (S_bus_spec (Ybus a) V i)) [0..<n_bus a] @
     map (\<lambda>i. Im (S_br_spec (Yf a) (fb a) V i)) [0..<n_branch a] @
     map (\<lambda>i. Im (S_br_spec (Yt a) (tb a) V i)) [0..<n_branch a] @
     vm @
     map (\<lambda>i. cmod (I_spec (Yf a) V i)) [0..<n_branch a] @
     map (\<lambda>i. cmod (I_spec (Yt a) V i)) [0..<n_branch a]"

text \<open>The constraint vector: real parts of the injections at \<open>p_idx\<close>, then imaginary parts
  at \<open>q_idx\<close>, each times the base power.\<close>

definition cx_spec :: "algebra \<Rightarrow> cvec \<Rightarrow> int list \<Rightarrow> int list \<Rightarrow> rvec" where
  "cx_spec a V p_idx q_idx =
     map (\<lambda>i. Re (S_bus_spec (Ybus a) V (nat i)) * baseMVA a) p_idx @
     map (\<lambda>i. Im (S_bus_spec (Ybus a) V (nat i)) * baseMVA a) q_idx"

section \<open>The derivative services of PYPOWER\<close>

text \<open>
  Modelled from the spec: \<^verbatim>\<open>dSbus_dV\<close>, \<^verbatim>\<open>dSbr_dV\<close> and \<^verbatim>\<open>dIbr_dV\<close> of \<^verbatim>\<open>pandapower.pypower\<close> are
  not among the sources. The specification describes them as the analytic partial
  derivatives of the complex bus injections, branch flows and branch currents with respect
  to voltage angle and magnitude, in the standard AC power-flow linearisation built from
  \<open>diag(V)\<close>, \<open>diag(V / |V|)\<close> and \<open>diag(conj(Y V))\<close>. Entry \<open>(i, j)\<close> of each block is written
  out below.
\<close>

definition Vnorm :: "complex \<Rightarrow> complex" where
  "Vnorm x = x / complex_of_real (cmod x)"

definition build :: "nat \<Rightarrow> nat \<Rightarrow> (nat \<Rightarrow> nat \<Rightarrow> 'a) \<Rightarrow> 'a matrix" where
  "build r c f = Matrix c (map (\<lambda>i. map (\<lambda>j. f i j) [0..<c]) [0..<r])"

definition dSbus_dVm_entry :: "complex matrix \<Rightarrow> cvec \<Rightarrow> nat \<Rightarrow> nat \<Rightarrow> complex" where
  "dSbus_dVm_entry Y V i j =
     V ! i * cnj (entry Y i j * Vnorm (V ! j)) +
     (if i = j then cnj (I_spec Y V i) * Vnorm (V ! i) else 0)"

definition dSbus_dVa_entry :: "complex matrix \<Rightarrow> cvec \<Rightarrow> nat \<Rightarrow> nat \<Rightarrow> complex" where
  "dSbus_dVa_entry Y V i j =
     \<i> * V ! i * cnj ((if i = j then I_spec Y V i else 0) - entry Y i j * V ! j)"

definition pypower_dSbus_dV ::
  "complex matrix \<Rightarrow> cvec \<Rightarrow> py_error + complex matrix \<times> complex matrix" where
  "pypower_dSbus_dV Y V =
     (let n = length V in
      if ncols Y = n \<and> nrows Y = n then
        Inr (build n n (dSbus_dVm_entry Y V), build n n (dSbus_dVa_entry Y V))
      else Inl ValueError)"

definition br_dS_dVa :: "complex matrix \<Rightarrow> nat list \<Rightarrow> cvec \<Rightarrow> complex matrix" where
  "br_dS_dVa Y ends V =
     build (length ends) (length V)
       (\<lambda>i j. \<i> * (cnj (I_spec Y V i) * (if j = ends ! i then V ! (ends ! i) else 0) -
                     V ! (ends ! i) * cnj (entry Y i j * V ! j)))"

definition br_dS_dVm :: "complex matrix \<Rightarrow> nat list \<Rightarrow> cvec \<Rightarrow> complex matrix" where
  "br_dS_dVm Y ends V =
     build (length ends) (length V)
       (\<lambda>i j. V ! (ends ! i) * cnj (entry Y i j * Vnorm (V ! j)) +
               cnj (I_spec Y V i) * (if j = ends ! i then Vnorm (V ! (ends ! i)) else 0))"

definition pypower_dSbr_dV ::
  "(int \<times> int) list \<Rightarrow> complex matrix \<Rightarrow> complex matrix \<Rightarrow> cvec \<Rightarrow> py_error + br_result" where
  "pypower_dSbr_dV branch Yff Ytt V =
     (let n = length V; m = length branch in
      if ncols Yff = n \<and> ncols Ytt = n \<and> nrows Yff = m \<and> nrows Ytt = m then
        res_bind (norm_indices n (map fst branch)) (\<lambda>f.
        res_bind (norm_indices n (map snd branch)) (\<lambda>t.
          Inr (br_dS_dVa Yff f V, br_dS_dVm Yff f V, br_dS_dVa Ytt t V, br_dS_dVm Ytt t V,
               map (\<lambda>i. V ! (f ! i) * cnj (I_spec Yff V i)) [0..<m],
               map (\<lambda>i. V ! (t ! i) * cnj (I_spec Ytt V i)) [0..<m])))
      else Inl ValueError)"

definition pypower_dIbr_dV ::
  "(int \<times> int) list \<Rightarrow> complex matrix \<Rightarrow> complex matrix \<Rightarrow> cvec \<Rightarrow> py_error + br_result" where
  "pypower_dIbr_dV branch Yff Ytt V =
     (let n = length V in
      if ncols Yff = n \<and> ncols Ytt = n then
        Inr (build (nrows Yff) n (\<lambda>i j. entry Yff i j * \<i> * V ! j),
             build (nrows Yff) n (\<lambda>i j. entry Yff i j * Vnorm (V ! j)),
             build (nrows Ytt) n (\<lambda>i j. entry Ytt i j * \<i> * V ! j),
             build (nrows Ytt) n (\<lambda>i j. entry Ytt i j * Vnorm (V ! j)),
             map (I_spec Yff V) [0..<nrows Yff],
             map (I_spec Ytt V) [0..<nrows Ytt])
      else Inl ValueError)"

definition pypower :: pfa where
  "pypower = \<lparr> dSbus_dV = pypower_dSbus_dV, dSbr_dV = pypower_dSbr_dV,
               dIbr_dV = pypower_dIbr_dV \<rparr>"


section \<open>The constraint as a function of one state variable\<close>


definition state_value :: "rvec \<Rightarrow> rvec \<Rightarrow> nat \<Rightarrow> real" where
  "state_value vm dl c = (dl @ vm) ! c"

section \<open>Frame of the operations\<close>

text \<open>What a call may change: the two cached voltage-state fields and nothing else. The
  first nine conjuncts name the fields an estimation run relies on; the last one says that
  every field other than \<open>v\<close> and \<open>delta\<close> is as before.\<close>

definition only_v_delta_changed :: "algebra \<Rightarrow> algebra \<Rightarrow> bool" where
  "only_v_delta_changed a a' \<longleftrightarrow>
     Ybus a' = Ybus a \<and> Yf a' = Yf a \<and> Yt a' = Yt a \<and>
     non_nan_meas_mask a' = non_nan_meas_mask a \<and>
     delta_v_bus_mask a' = delta_v_bus_mask a \<and>
     non_nan_meas_selector a' = non_nan_meas_selector a \<and>
     delta_v_bus_selector a' = delta_v_bus_selector a \<and>
     z a' = z a \<and> sigma a' = sigma a \<and>
     a' = a\<lparr>v := v a', delta := delta a'\<rparr>"

section \<open>A two-bus network\<close>

text \<open>Bus 0 is the reference bus, bus 1 the only other bus, and one lossless line of
  series admittance \<open>- \<i>\<close> joins them. Observed are the active and the reactive injection
  at bus 1, the voltage magnitude at bus 0 and the current magnitude at the from end of the
  line. The state \<open>ex_E\<close> has angle 0 at bus 1 and magnitudes 1 and 2.\<close>

definition ex_Y :: "eppci \<Rightarrow> complex matrix \<times> complex matrix \<times> complex matrix" where
  "ex_Y ep = (Matrix 2 [[- \<i>, \<i>], [\<i>, - \<i>]], Matrix 2 [[- \<i>, \<i>]], Matrix 2 [[\<i>, - \<i>]])"

definition ex_eppci :: eppci where
  "ex_eppci =
     \<lparr> e_branch = [(0, 1)],
       e_bus_rows = 2,
       e_baseMVA = 100,
       e_bus_baseKV = [110, 110],
       e_num_non_slack_bus = 1,
       e_non_slack_buses = [1],
       e_delta_v_bus_mask = [False, True, True, True],
       e_non_nan_meas_mask = [False, True, False, False, False, True,
                              False, False, True, False, True, False],
       e_any_i_meas = True,
       e_z = [0, 2, 1, 1],
       e_r_cov = [1, 1, 1, 1],
       e_v_init = [1, 1],
       e_delta_init = [0, 0] \<rparr>"

definition ex_algebra :: algebra where
  "ex_algebra = BaseAlgebra_init ex_Y ex_eppci"

text \<open>The same network without the current measurement.\<close>

definition ex_eppci2 :: eppci where
  "ex_eppci2 =
     ex_eppci\<lparr> e_non_nan_meas_mask := [False, True, False, False, False, True,
                                       False, False, True, False, False, False],
               e_any_i_meas := False,
               e_z := [0, 2, 1],
               e_r_cov := [1, 1, 1] \<rparr>"

definition ex_algebra2 :: algebra where
  "ex_algebra2 = BaseAlgebra_init ex_Y ex_eppci2"

definition ex_E :: rvec where
  "ex_E = [0, 1, 2]"

section \<open>Properties of the decode step\<close>

lemma norm_indices_length:
  "norm_indices n idx = Inr js \<Longrightarrow> length js = length idx"
  by (induction idx arbitrary: js) (auto split: sum.splits)

lemma norm_indices_nonneg:
  "list_all (\<lambda>i. 0 \<le> i \<and> i < int n) idx \<Longrightarrow> norm_indices n idx = Inr (map nat idx)"
  by (induction idx) (auto simp: norm_index_def)

lemma length_fold_upd [simp]:
  "length (fold (\<lambda>(j, x) acc. acc[j := x]) ps xs) = length xs"
  by (induction ps arbitrary: xs) (auto split: prod.splits)

text \<open>After a sequence of writes, a position holds the value of the last write to it.\<close>

lemma fold_upd_nth:
  "k < length xs \<Longrightarrow>
   fold (\<lambda>(j, x) acc. acc[j := x]) ps xs ! k =
     (case map_of (rev ps) k of None \<Rightarrow> xs ! k | Some x \<Rightarrow> x)"
proof (induction ps arbitrary: xs)
  case Nil
  then show ?case by simp
next
  case (Cons p ps)
  obtain j x where p: "p = (j, x)" by (cases p)
  have "fold (\<lambda>(j, x) acc. acc[j := x]) (p # ps) xs ! k =
        (case map_of (rev ps) k of None \<Rightarrow> xs[j := x] ! k | Some y \<Rightarrow> y)"
    using Cons.IH [of "xs[j := x]"] Cons.prems by (simp add: p)
  also have "\<dots> = (case map_of (rev (p # ps)) k of None \<Rightarrow> xs ! k | Some y \<Rightarrow> y)"
    using Cons.prems by (auto simp: p map_add_def split: option.splits)
  finally show ?case .
qed

lemma fold_upd_idem:
  "fold (\<lambda>(j, x) acc. acc[j := x]) ps (fold (\<lambda>(j, x) acc. acc[j := x]) ps xs) =
   fold (\<lambda>(j, x) acc. acc[j := x]) ps xs"
  by (rule nth_equalityI) (auto simp: fold_upd_nth split: option.splits)

lemma setitem_length: "setitem xs idx vals = Inr ys \<Longrightarrow> length ys = length xs"
  by (auto simp: setitem_def res_bind_def split: if_splits sum.splits)

lemma setitem_idem: "setitem xs idx vals = Inr ys \<Longrightarrow> setitem ys idx vals = Inr ys"
  by (auto simp: setitem_def res_bind_def fold_upd_idem split: if_splits sum.splits)

lemma e2v_idem: "e2v (snd (e2v a E)) E = e2v a E"
  by (auto simp: e2v_def Let_def setitem_idem split: sum.splits)

lemma snd_create_hx: "snd (create_hx a E) = snd (e2v a E)"
  by (auto simp: create_hx_def split: sum.splits prod.splits)

lemma create_hx_idem: "create_hx (snd (create_hx a E)) E = create_hx a E"
  by (simp add: snd_create_hx) (simp add: create_hx_def e2v_idem)

lemma snd_create_rx: "snd (create_rx a E) = snd (create_hx a E)"
  by (auto simp: create_rx_def split: sum.splits prod.splits)

lemma snd_create_hx_jacobian: "snd (create_hx_jacobian P a E) = snd (e2v a E)"
  by (auto simp: create_hx_jacobian_def split: sum.splits prod.splits)

lemma snd_create_cx: "snd (create_cx a E p q) = snd (e2v a E)"
  by (auto simp: create_cx_def split: sum.splits prod.splits)

lemma snd_create_cx_jacobian: "snd (create_cx_jacobian P a E p q) = snd (e2v a E)"
  by (auto simp: create_cx_jacobian_def split: sum.splits prod.splits)

lemma e2v_only: "only_v_delta_changed a (snd (e2v a E))"
  unfolding only_v_delta_changed_def
  by (auto simp: e2v_def Let_def split: sum.splits)

lemma map_of_rev_distinct:
  "distinct (map fst ps) \<Longrightarrow> map_of (rev ps) = map_of ps"
  by (rule map_of_inject_set [THEN iffD2]) (auto simp: distinct_rev simp flip: rev_map)

lemma init_delta: "delta (BaseAlgebra_init mk ep) = e_delta_init ep"
  by (simp add: BaseAlgebra_init_def split: prod.splits)

text \<open>
  Claim C3. For a state vector \<open>E\<close> of length \<open>num_non_slack_bus + n_bus\<close> (with as many
  distinct, in-range non-slack bus indices as \<open>num_non_slack_bus\<close> says), \<open>_e2v\<close> succeeds,
  sets \<open>v\<close> to the last \<open>n_bus\<close> entries of \<open>E\<close>, writes the first \<open>num_non_slack_bus\<close>
  entries of \<open>E\<close> into \<open>delta\<close> at the non-slack bus positions, and leaves every other entry
  of \<open>delta\<close> (the reference bus angle) at the value it held before the call.
\<close>

theorem e2v_decodes:
  assumes len: "length E = num_non_slack_bus a + n_bus a"
    and nsb: "length (non_slack_buses a) = num_non_slack_bus a"
    and rng: "list_all (\<lambda>i. 0 \<le> i \<and> i < int (length (delta a))) (non_slack_buses a)"
    and dist: "distinct (non_slack_buses a)"
  shows "fst (e2v a E) = Inr (v (snd (e2v a E)), delta (snd (e2v a E))) \<and>
         v (snd (e2v a E)) = drop (length E - n_bus a) E \<and>
         length (v (snd (e2v a E))) = n_bus a \<and>
         length (delta (snd (e2v a E))) = length (delta a) \<and>
         (\<forall>k < num_non_slack_bus a.
            delta (snd (e2v a E)) ! nat (non_slack_buses a ! k) = E ! k) \<and>
         (\<forall>j < length (delta a).
            int j \<notin> set (non_slack_buses a) \<longrightarrow> delta (snd (e2v a E)) ! j = delta a ! j)"
proof -
  let ?js = "map nat (non_slack_buses a)"
  let ?vals = "take (num_non_slack_bus a) E"
  let ?d = "fold (\<lambda>(j, x) acc. acc[j := x]) (zip ?js ?vals) (delta a)"
  have lv: "length ?vals = length (non_slack_buses a)"
    using len nsb by simp
  have set_d: "setitem (delta a) (non_slack_buses a) ?vals = Inr ?d"
    using lv norm_indices_nonneg [OF rng] by (simp add: setitem_def res_bind_def)
  have e: "e2v a E = (Inr (drop (num_non_slack_bus a) E, ?d),
                      a\<lparr>v := drop (num_non_slack_bus a) E, delta := ?d\<rparr>)"
    using set_d by (simp add: e2v_def Let_def)
  have "inj_on nat (set (non_slack_buses a))"
  proof (rule inj_onI)
    fix x y
    assume xy: "x \<in> set (non_slack_buses a)" "y \<in> set (non_slack_buses a)" "nat x = nat y"
    then have "0 \<le> x" "0 \<le> y" using rng by (auto simp: list_all_iff)
    with xy show "x = y" by simp
  qed
  then have dj: "distinct ?js"
    using dist by (simp add: distinct_map)
  have mo: "map_of (rev (zip ?js ?vals)) = map_of (zip ?js ?vals)"
    using dj lv by (intro map_of_rev_distinct) simp
  have in_rng: "\<And>k. k < num_non_slack_bus a \<Longrightarrow> nat (non_slack_buses a ! k) < length (delta a)"
    using rng nsb by (auto simp: list_all_length)
  have hit: "?d ! nat (non_slack_buses a ! k) = E ! k" if k: "k < num_non_slack_bus a" for k
  proof -
    have "map_of (zip ?js ?vals) (?js ! k) = Some (?vals ! k)"
      using dj lv k nsb by (intro map_of_zip_nth) auto
    then show ?thesis
      using k nsb in_rng [OF k] by (simp add: fold_upd_nth mo)
  qed
  have miss: "?d ! j = delta a ! j"
    if j: "j < length (delta a)" and nin: "int j \<notin> set (non_slack_buses a)" for j
  proof -
    have "j \<notin> set ?js"
    proof
      assume "j \<in> set ?js"
      then obtain i where i: "i \<in> set (non_slack_buses a)" "j = nat i" by auto
      then have "0 \<le> i" using rng by (auto simp: list_all_iff)
      with i nin show False by simp
    qed
    then have "map_of (zip ?js ?vals) j = None"
      using lv by (simp add: map_of_zip_is_None)
    then show ?thesis using j by (simp add: fold_upd_nth mo)
  qed
  show ?thesis
    using len hit miss by (simp add: e)
qed

lemmas ex_defs = ex_algebra_def ex_eppci_def ex_Y_def ex_E_def BaseAlgebra_init_def

theorem e2v_decodes_witness:
  "length ex_E = num_non_slack_bus ex_algebra + n_bus ex_algebra \<and>
   length (non_slack_buses ex_algebra) = num_non_slack_bus ex_algebra \<and>
   list_all (\<lambda>i. 0 \<le> i \<and> i < int (length (delta ex_algebra))) (non_slack_buses ex_algebra) \<and>
   distinct (non_slack_buses ex_algebra) \<and>
   fst (e2v ex_algebra ex_E) = Inr ([1, 2], [0, 0]) \<and>
   v (snd (e2v ex_algebra ex_E)) = [1, 2] \<and>
   delta (snd (e2v ex_algebra ex_E)) ! 1 = ex_E ! 0 \<and>
   delta (snd (e2v ex_algebra ex_E)) ! 0 = delta ex_algebra ! 0"
proof -
  have h1: "length ex_E = num_non_slack_bus ex_algebra + n_bus ex_algebra"
    by (simp add: ex_defs)
  have h2: "length (non_slack_buses ex_algebra) = num_non_slack_bus ex_algebra"
    by (simp add: ex_defs)
  have h3: "list_all (\<lambda>i. 0 \<le> i \<and> i < int (length (delta ex_algebra)))
              (non_slack_buses ex_algebra)"
    by (simp add: ex_defs)
  have h4: "distinct (non_slack_buses ex_algebra)"
    by (simp add: ex_defs)
  note t = e2v_decodes [OF h1 h2 h3 h4]
  have v1: "v (snd (e2v ex_algebra ex_E)) = [1, 2]"
    using t by (simp add: ex_defs)
  have k: "delta (snd (e2v ex_algebra ex_E)) ! nat (non_slack_buses ex_algebra ! 0) = ex_E ! 0"
    using t by (simp add: ex_defs)
  have j: "delta (snd (e2v ex_algebra ex_E)) ! 0 = delta ex_algebra ! 0"
    using t by (simp add: ex_defs)
  have d: "delta (snd (e2v ex_algebra ex_E)) = [0, 0]"
    by (simp add: ex_defs e2v_def setitem_def res_bind_def norm_index_def)
  show ?thesis
    using h1 h2 h3 h4 t v1 k j d by (simp add: ex_defs)
qed

section \<open>Idempotence of the residual\<close>

text \<open>
  Claim C8. Calling \<open>create_rx\<close> a second time with the same state vector, on the object the
  first call left behind, gives the same result (value or exception) and leaves the same
  object: what the first call wrote into \<open>v\<close> and \<open>delta\<close> does not change what the second
  one computes.
\<close>

theorem create_rx_idempotent: "create_rx (snd (create_rx a E)) E = create_rx a E"
  by (simp add: snd_create_rx) (simp add: create_rx_def create_hx_idem)

section \<open>Frame\<close>

text \<open>
  Claim C10. Each of \<open>create_rx\<close>, \<open>create_hx\<close>, \<open>create_hx_jacobian\<close>, \<open>create_cx\<close> and
  \<open>create_cx_jacobian\<close> leaves \<open>Ybus\<close>, \<open>Yf\<close>, \<open>Yt\<close>, both masks, both selectors, \<open>z\<close> and
  \<open>sigma\<close> unchanged, whether it returns or raises; apart from \<open>v\<close> and \<open>delta\<close> the object after
  the call is the object before it.
\<close>

theorem operations_frame:
  "only_v_delta_changed a (snd (create_rx a E)) \<and>
   only_v_delta_changed a (snd (create_hx a E)) \<and>
   only_v_delta_changed a (snd (create_hx_jacobian P a E)) \<and>
   only_v_delta_changed a (snd (create_cx a E p q)) \<and>
   only_v_delta_changed a (snd (create_cx_jacobian P a E p q))"
  by (simp add: snd_create_rx snd_create_hx snd_create_hx_jacobian snd_create_cx
      snd_create_cx_jacobian e2v_only)

section \<open>The measurement function\<close>

lemma res_bind_Inr [simp]: "res_bind (Inr x) f = f x"
  by (simp add: res_bind_def)

lemma res_bind_Inl [simp]: "res_bind (Inl e) f = Inl e"
  by (simp add: res_bind_def)

lemma e2v_success:
  assumes "length (non_slack_buses a) = num_non_slack_bus a"
    and "num_non_slack_bus a \<le> length E"
    and "list_all (\<lambda>i. 0 \<le> i \<and> i < int (length (delta a))) (non_slack_buses a)"
  shows "\<exists>d. e2v a E = (Inr (drop (num_non_slack_bus a) E, d),
                         a\<lparr>v := drop (num_non_slack_bus a) E, delta := d\<rparr>) \<and>
             length d = length (delta a)"
  using assms norm_indices_nonneg [OF assms(3)]
  by (simp add: e2v_def Let_def setitem_def res_bind_def)

lemma consistent_e2v:
  assumes c: "consistent a" and len: "length E = num_non_slack_bus a + n_bus a"
  shows "\<exists>d. e2v a E = (Inr (drop (num_non_slack_bus a) E, d),
                         a\<lparr>v := drop (num_non_slack_bus a) E, delta := d\<rparr>) \<and>
             length d = n_bus a"
proof -
  have "length (non_slack_buses a) = num_non_slack_bus a"
    and "list_all (\<lambda>i. 0 \<le> i \<and> i < int (length (delta a))) (non_slack_buses a)"
    and "length (delta a) = n_bus a"
    using c by (simp_all add: consistent_def)
  then show ?thesis using e2v_success [of a E] len by simp
qed

lemma consistent_upd [simp]:
  "consistent (a\<lparr>v := vm, delta := dl\<rparr>) \<longleftrightarrow> consistent (a\<lparr>delta := dl\<rparr>)"
  by (simp add: consistent_def)

lemma consistent_delta: "consistent a \<Longrightarrow> length dl = n_bus a \<Longrightarrow> consistent (a\<lparr>delta := dl\<rparr>)"
  by (simp add: consistent_def)

lemma length_V_spec [simp]: "length (V_spec vm dl) = length vm"
  by (simp add: V_spec_def)

lemma voltage_eq:
  "length vm = length dl \<Longrightarrow> voltage vm dl = Inr (V_spec vm dl)"
  by (auto simp: voltage_def broadcast2_def V_spec_def intro!: nth_equalityI)

lemma sum_list_map2_nth:
  "length row = length x \<Longrightarrow> sum_list (map2 (*) row x) = (\<Sum>k<length x. row ! k * x ! k)"
  by (simp add: sum_list_sum_nth atLeast0LessThan)

text \<open>The sparse product, row by row, is the sum the specification writes.\<close>

lemma spmv_eq:
  assumes "has_shape r c Y" and "length V = c"
  shows "spmv Y V = Inr (map (I_spec Y V) [0..<r])"
proof -
  have "map (\<lambda>row. sum_list (map2 (*) row V)) (mrows Y) = map (I_spec Y V) [0..<r]"
    using assms
    by (auto simp: has_shape_def nrows_def list_all_length I_spec_def entry_def
        sum_list_map2_nth intro!: nth_equalityI)
  then show ?thesis using assms by (simp add: spmv_def has_shape_def)
qed

lemma broadcast2_eq:
  "length xs = length ys \<Longrightarrow>
   broadcast2 f xs ys = Inr (map (\<lambda>k. f (xs ! k) (ys ! k)) [0..<length xs])"
  by (auto simp: broadcast2_def intro!: nth_equalityI)

lemma take_idx_eq:
  "list_all (\<lambda>i. 0 \<le> i \<and> i < int (length xs)) idx \<Longrightarrow>
   take_idx xs idx = Inr (map (\<lambda>i. xs ! nat i) idx)"
  by (simp add: take_idx_def res_bind_def norm_indices_nonneg comp_def)

text \<open>Indexing by a mask picks the entries at the true positions, in increasing order.\<close>

lemma mask_idx_eq:
  assumes "length msk = length xs"
  shows "mask_idx xs msk = Inr (map (\<lambda>i. xs ! i) (flatnonzero msk))"
proof -
  have zp: "zip xs msk = map (\<lambda>i. (xs ! i, msk ! i)) [0..<length msk]"
    using assms by (auto intro!: nth_equalityI)
  have "map fst (filter snd (zip xs msk)) = map (\<lambda>i. xs ! i) (flatnonzero msk)"
    unfolding zp flatnonzero_def by (simp add: filter_map comp_def)
  then show ?thesis using assms by (simp add: mask_idx_def)
qed

lemma flatnonzero_positions:
  "sorted (flatnonzero msk) \<and> distinct (flatnonzero msk) \<and>
   set (flatnonzero msk) = {i. i < length msk \<and> msk ! i}"
  by (auto simp: flatnonzero_def sorted_wrt_filter)

lemma length_flatnonzero: "length (flatnonzero msk) = length (filter id msk)"
proof -
  have "filter id msk = map (\<lambda>i. msk ! i) (filter (\<lambda>i. msk ! i) [0..<length msk])"
    by (subst (1) map_nth [symmetric]) (simp add: filter_map comp_def del: map_nth)
  then show ?thesis by (simp add: flatnonzero_def)
qed

lemma Sbus_bc:
  assumes "length V = n"
  shows "broadcast2 (*) V (map (\<lambda>x. cnj (I_spec Y V x)) [0..<n]) =
         Inr (map (S_bus_spec Y V) [0..<n])"
  using assms by (auto simp: broadcast2_eq S_bus_spec_def intro!: nth_equalityI)

lemma Sbr_bc:
  assumes "length ends = m"
  shows "broadcast2 (*) (map (\<lambda>i. V ! nat i) ends) (map (\<lambda>x. cnj (I_spec Y V x)) [0..<m]) =
         Inr (map (S_br_spec Y ends V) [0..<m])"
  using assms by (auto simp: broadcast2_eq S_br_spec_def intro!: nth_equalityI)

lemma hx_of_eq:
  assumes c: "consistent a" and lv: "length vm = n_bus a" and ld: "length dl = n_bus a"
  shows "hx_of a vm dl =
         Inr (map (\<lambda>i. hx_spec a vm (V_spec vm dl) ! i) (flatnonzero (non_nan_meas_mask a)))"
proof -
  let ?V = "V_spec vm dl"
  have lV: "length ?V = n_bus a" using lv by simp
  have sb: "has_shape (n_bus a) (n_bus a) (Ybus a)"
    and sf: "has_shape (n_branch a) (n_bus a) (Yf a)"
    and st: "has_shape (n_branch a) (n_bus a) (Yt a)"
    and lf: "length (fb a) = n_branch a" and lt: "length (tb a) = n_branch a"
    and rf: "list_all (\<lambda>i. 0 \<le> i \<and> i < int (n_bus a)) (fb a)"
    and rt: "list_all (\<lambda>i. 0 \<le> i \<and> i < int (n_bus a)) (tb a)"
    and lm: "length (non_nan_meas_mask a) = 3 * n_bus a + 6 * n_branch a"
    using c by (simp_all add: consistent_def)
  have Vf: "take_idx ?V (fb a) = Inr (map (\<lambda>i. ?V ! nat i) (fb a))"
    using rf lV by (simp add: take_idx_eq)
  have Vt: "take_idx ?V (tb a) = Inr (map (\<lambda>i. ?V ! nat i) (tb a))"
    using rt lV by (simp add: take_idx_eq)
  have "hx_of a vm dl = mask_idx (hx_spec a vm ?V) (non_nan_meas_mask a)"
    unfolding hx_of_def
    by (simp add: voltage_eq lv ld Vf Vt spmv_eq [OF sf lV] spmv_eq [OF st lV]
        spmv_eq [OF sb lV] Sbr_bc lf lt Sbus_bc hx_spec_def comp_def)
  moreover have "length (hx_spec a vm ?V) = length (non_nan_meas_mask a)"
    using lv lm by (simp add: hx_spec_def)
  ultimately show ?thesis by (simp add: mask_idx_eq)
qed

lemma ex_flatnonzero:
  "flatnonzero (non_nan_meas_mask ex_algebra) = [1, 5, 8, 10]"
  "flatnonzero (delta_v_bus_mask ex_algebra) = [1, 2, 3]"
  by (simp_all add: ex_defs flatnonzero_def upt_conv_Cons)

lemma ex_consistent: "consistent ex_algebra"
  by (simp add: consistent_def) (simp add: ex_defs has_shape_def nrows_def)

lemma ex_len: "length ex_E = num_non_slack_bus ex_algebra + n_bus ex_algebra"
  by (simp add: ex_defs)

lemma ex_e2v:
  "e2v ex_algebra ex_E = (Inr ([1, 2], [0, 0]), ex_algebra\<lparr>v := [1, 2], delta := [0, 0]\<rparr>)"
  by (simp add: ex_defs e2v_def setitem_def res_bind_def norm_index_def)

lemma ex_V: "V_spec [1, 2] [0, 0] = [1, 2]"
  by (simp add: V_spec_def upt_conv_Cons)

text \<open>
  Claim C1. On consistent inputs \<open>create_hx\<close> returns the canonical vector
  \<open>[Re S_bus, Re S_from, Re S_to, Im S_bus, Im S_from, Im S_to, v, |I_from|, |I_to|]\<close> of the
  decoded state, with \<open>V = v \<cdot> exp(i \<cdot> delta)\<close>, \<open>S_bus = V \<cdot> conj(Ybus V)\<close>,
  \<open>S_from = V[from] \<cdot> conj(Yf V)\<close>, \<open>S_to = V[to] \<cdot> conj(Yt V)\<close>, \<open>I_from = Yf V\<close> and
  \<open>I_to = Yt V\<close>, read at the positions where \<open>non_nan_meas_mask\<close> is true, in increasing
  order of position (\<open>flatnonzero_positions\<close>); the canonical vector is as long as the mask.
\<close>

theorem create_hx_canonical:
  assumes c: "consistent a" and len: "length E = num_non_slack_bus a + n_bus a"
  shows "fst (create_hx a E) =
         Inr (map (\<lambda>i. hx_spec a (v (snd (create_hx a E)))
                          (V_spec (v (snd (create_hx a E))) (delta (snd (create_hx a E)))) ! i)
                (flatnonzero (non_nan_meas_mask a))) \<and>
         length (hx_spec a (v (snd (create_hx a E)))
                   (V_spec (v (snd (create_hx a E))) (delta (snd (create_hx a E))))) =
         length (non_nan_meas_mask a)"
proof -
  obtain d where e: "e2v a E = (Inr (drop (num_non_slack_bus a) E, d),
                         a\<lparr>v := drop (num_non_slack_bus a) E, delta := d\<rparr>)"
    and ld: "length d = n_bus a"
    using consistent_e2v [OF c len] by blast
  let ?a' = "a\<lparr>v := drop (num_non_slack_bus a) E, delta := d\<rparr>"
  have c': "consistent ?a'" using consistent_delta [OF c ld] by simp
  have lv: "length (drop (num_non_slack_bus a) E) = n_bus ?a'" using len by simp
  have ld': "length d = n_bus ?a'" using ld by simp
  have h: "hx_spec ?a' = hx_spec a" by (simp add: hx_spec_def fun_eq_iff)
  have lm: "length (non_nan_meas_mask a) = 3 * n_bus a + 6 * n_branch a"
    using c by (simp add: consistent_def)
  show ?thesis
    using hx_of_eq [OF c' lv ld'] lm len by (simp add: create_hx_def e h hx_spec_def)
qed

theorem create_hx_canonical_witness:
  "consistent ex_algebra \<and>
   length ex_E = num_non_slack_bus ex_algebra + n_bus ex_algebra \<and>
   fst (create_hx ex_algebra ex_E) = Inr [0, 2, 1, 1]"
proof -
  note t = create_hx_canonical [OF ex_consistent ex_len]
  have st: "v (snd (create_hx ex_algebra ex_E)) = [1, 2]"
    "delta (snd (create_hx ex_algebra ex_E)) = [0, 0]"
    by (simp_all add: snd_create_hx ex_e2v)
  have "hx_spec ex_algebra [1, 2] [1, 2] = [0, 0, 0, 0, - 1, 2, - 1, 2, 1, 2, 1, 1]"
    by (simp add: hx_spec_def S_bus_spec_def S_br_spec_def I_spec_def entry_def ex_defs
        upt_conv_Cons lessThan_nat_numeral lessThan_Suc)
  then show ?thesis
    using t ex_consistent ex_len by (simp add: st ex_V ex_flatnonzero)
qed

section \<open>The zero-injection constraint\<close>

text \<open>
  Claim C7. On consistent inputs, with \<open>p_idx\<close> and \<open>q_idx\<close> lists of bus indices,
  \<open>create_cx\<close> returns the real parts of the bus injections \<open>S_bus = V \<cdot> conj(Ybus V)\<close> at
  the buses of \<open>p_idx\<close>, followed by the imaginary parts at the buses of \<open>q_idx\<close>, every entry
  multiplied by \<open>baseMVA\<close>.
\<close>

theorem create_cx_scaled:
  assumes c: "consistent a" and len: "length E = num_non_slack_bus a + n_bus a"
    and p: "list_all (\<lambda>i. 0 \<le> i \<and> i < int (n_bus a)) p_idx"
    and q: "list_all (\<lambda>i. 0 \<le> i \<and> i < int (n_bus a)) q_idx"
  shows "fst (create_cx a E p_idx q_idx) =
         Inr (cx_spec a (V_spec (v (snd (create_cx a E p_idx q_idx)))
                           (delta (snd (create_cx a E p_idx q_idx)))) p_idx q_idx)"
proof -
  obtain d where e: "e2v a E = (Inr (drop (num_non_slack_bus a) E, d),
                         a\<lparr>v := drop (num_non_slack_bus a) E, delta := d\<rparr>)"
    and ld: "length d = n_bus a"
    using consistent_e2v [OF c len] by blast
  let ?vm = "drop (num_non_slack_bus a) E"
  let ?V = "V_spec ?vm d"
  have lv: "length ?vm = n_bus a" using len by simp
  have lV: "length ?V = n_bus a" using lv by simp
  have sb: "has_shape (n_bus a) (n_bus a) (Ybus a)"
    using c by (simp add: consistent_def)
  have vol: "voltage ?vm d = Inr ?V"
    using lv ld by (simp add: voltage_eq)
  have Sb: "broadcast2 (*) ?V (map (\<lambda>x. cnj (I_spec (Ybus a) ?V x)) [0..<n_bus a]) =
            Inr (map (S_bus_spec (Ybus a) ?V) [0..<n_bus a])"
    using lV by (rule Sbus_bc)
  have tp: "take_idx (map (S_bus_spec (Ybus a) ?V) [0..<n_bus a]) p_idx =
            Inr (map (\<lambda>i. S_bus_spec (Ybus a) ?V (nat i)) p_idx)"
    using p by (subst take_idx_eq) (auto simp: list_all_iff)
  have tq: "take_idx (map (S_bus_spec (Ybus a) ?V) [0..<n_bus a]) q_idx =
            Inr (map (\<lambda>i. S_bus_spec (Ybus a) ?V (nat i)) q_idx)"
    using q by (subst take_idx_eq) (auto simp: list_all_iff)
  show ?thesis
    by (simp add: create_cx_def e cx_of_def vol spmv_eq [OF sb lV] Sb tp tq
        cx_spec_def comp_def)
qed

theorem create_cx_scaled_witness:
  "consistent ex_algebra \<and>
   length ex_E = num_non_slack_bus ex_algebra + n_bus ex_algebra \<and>
   list_all (\<lambda>i. 0 \<le> i \<and> i < int (n_bus ex_algebra)) [1] \<and>
   list_all (\<lambda>i. 0 \<le> i \<and> i < int (n_bus ex_algebra)) [0, 1] \<and>
   fst (create_cx ex_algebra ex_E [1] [0, 1]) = Inr [0, - 100, 200]"
proof -
  have p: "list_all (\<lambda>i. 0 \<le> i \<and> i < int (n_bus ex_algebra)) [1]"
    and q: "list_all (\<lambda>i. 0 \<le> i \<and> i < int (n_bus ex_algebra)) [0, 1]"
    by (simp_all add: ex_defs)
  note t = create_cx_scaled [OF ex_consistent ex_len p q]
  have st: "v (snd (create_cx ex_algebra ex_E [1] [0, 1])) = [1, 2]"
    "delta (snd (create_cx ex_algebra ex_E [1] [0, 1])) = [0, 0]"
    by (simp_all add: snd_create_cx ex_e2v)
  have "cx_spec ex_algebra [1, 2] [1] [0, 1] = [0, - 100, 200]"
    by (simp add: cx_spec_def S_bus_spec_def I_spec_def entry_def ex_defs
        lessThan_nat_numeral lessThan_Suc)
  then show ?thesis
    using t ex_consistent ex_len p q by (simp add: st ex_V)
qed

section \<open>Matrices: shapes, stacking and projection\<close>

lemma has_shape_build [simp]: "has_shape r c (build r c f)"
  by (simp add: has_shape_def build_def nrows_def list_all_iff)

lemma entry_build [simp]: "i < r \<Longrightarrow> j < c \<Longrightarrow> entry (build r c f) i j = f i j"
  by (simp add: entry_def build_def)

lemma build_entry: "has_shape r c M \<Longrightarrow> M = build r c (entry M)"
  by (cases M) (auto simp: has_shape_def build_def nrows_def entry_def list_all_length
      intro!: nth_equalityI)

lemma build_cong:
  "(\<And>i j. i < r \<Longrightarrow> j < c \<Longrightarrow> f i j = g i j) \<Longrightarrow> build r c f = build r c g"
  by (simp add: build_def)

lemma has_shape_map_entries [simp]: "has_shape r c (map_entries f M) = has_shape r c M"
  by (simp add: has_shape_def map_entries_def nrows_def list_all_iff)

lemma entry_map_entries:
  "has_shape r c M \<Longrightarrow> i < r \<Longrightarrow> j < c \<Longrightarrow> entry (map_entries f M) i j = f (entry M i j)"
  by (simp add: has_shape_def map_entries_def nrows_def entry_def list_all_length)

lemma has_shapeD:
  "has_shape r c M \<Longrightarrow> nrows M = r \<and> ncols M = c \<and> length (mrows M) = r"
  by (simp add: has_shape_def nrows_def)

lemma vstack_concat:
  "Ms \<noteq> [] \<Longrightarrow> list_all (\<lambda>M. ncols M = c) Ms \<Longrightarrow>
   vstack Ms = Inr (Matrix c (concat (map mrows Ms)))"
proof (induction Ms rule: vstack.induct)
  case 1
  then show ?case by simp
next
  case (2 M)
  then show ?case by (cases M) simp
next
  case (3 M N Ns)
  then show ?case by (simp add: res_bind_def)
qed

lemma hstack2:
  "nrows A = nrows B \<Longrightarrow>
   hstack [A, B] = Inr (Matrix (ncols A + ncols B) (map2 (@) (mrows A) (mrows B)))"
  by (simp add: res_bind_def)

lemma has_shape_hstack2:
  assumes "has_shape r c1 A" and "has_shape r c2 B"
  shows "has_shape r (c1 + c2) (Matrix (ncols A + ncols B) (map2 (@) (mrows A) (mrows B)))"
  using assms
  by (auto simp: has_shape_def nrows_def list_all_length)

lemma has_shape_concat:
  assumes "list_all2 (\<lambda>M r. has_shape r c M) Ms rs"
  shows "has_shape (sum_list rs) c (Matrix c (concat (map mrows Ms)))"
  using assms
  by (induction rule: list_all2_induct)
     (auto simp: has_shape_def nrows_def)

lemma select_rows_eq:
  "list_all (\<lambda>i. i < nrows M) idx \<Longrightarrow>
   select_rows M idx = Inr (Matrix (ncols M) (map (\<lambda>i. mrows M ! i) idx))"
  by (simp add: select_rows_def)

lemma project_eq:
  assumes F: "has_shape r c F"
    and rs: "list_all (\<lambda>i. i < r) (non_nan_meas_selector a)"
    and cs: "list_all (\<lambda>j. j < c) (delta_v_bus_selector a)"
  shows "project a F =
         Inr (build (length (non_nan_meas_selector a)) (length (delta_v_bus_selector a))
                (\<lambda>i j. entry F (non_nan_meas_selector a ! i) (delta_v_bus_selector a ! j)))"
  using assms
  by (auto simp: project_def select_rows_def select_cols_def has_shape_def build_def entry_def
      nrows_def res_bind_def list_all_length intro!: nth_equalityI)

lemma map_entries_as_build:
  "has_shape r c M \<Longrightarrow> map_entries f M = build r c (\<lambda>i j. f (entry M i j))"
  by (cases M) (auto simp: has_shape_def build_def nrows_def entry_def list_all_length
      map_entries_def intro!: nth_equalityI)

lemma map_entries_build [simp]:
  "map_entries f (build r c g) = build r c (\<lambda>i j. f (g i j))"
  by (simp add: map_entries_def build_def)

lemma bcast_col_eq:
  "has_shape m n M \<Longrightarrow> length xs = m \<Longrightarrow>
   bcast_col f M xs = Inr (build m n (\<lambda>i j. f (entry M i j) (xs ! i)))"
  by (cases M) (auto simp: has_shape_def build_def nrows_def entry_def list_all_length
      bcast_col_def intro!: nth_equalityI)

lemma bcast_col_build:
  "length xs = m \<Longrightarrow>
   bcast_col f (build m n g) xs = Inr (build m n (\<lambda>i j. f (g i j) (xs ! i)))"
  by (subst bcast_col_eq [of m n]) (auto intro!: build_cong)

lemma dibr_block_eq:
  assumes "has_shape m n dI" and "length Ibr = m"
  shows "dibr_block dI Ibr =
         Inr (build m n (\<lambda>i j. (cmod (Ibr ! i + complex_of_real (1 / 10 ^ 5) * entry dI i j)
                                  - cmod (Ibr ! i)) / (1 / 10 ^ 5)))"
  using assms(2)
  by (auto simp: dibr_block_def map_entries_as_build [OF assms(1)] bcast_col_build add.commute
      intro!: build_cong)

lemma vstack_ok:
  assumes "list_all2 (\<lambda>M r. has_shape r c M) Ms rs" and "Ms \<noteq> []"
  shows "vstack Ms = Inr (Matrix c (concat (map mrows Ms))) \<and>
         has_shape (sum_list rs) c (Matrix c (concat (map mrows Ms)))"
proof -
  have "list_all (\<lambda>M. ncols M = c) Ms"
    using assms(1) by (induction rule: list_all2_induct) (auto simp: has_shape_def)
  then show ?thesis
    using assms by (simp add: vstack_concat has_shape_concat)
qed

lemma hstack2_ok:
  assumes "has_shape r c1 A" and "has_shape r c2 B"
  shows "hstack [A, B] = Inr (Matrix (c1 + c2) (map2 (@) (mrows A) (mrows B))) \<and>
         has_shape r (c1 + c2) (Matrix (c1 + c2) (map2 (@) (mrows A) (mrows B)))"
  using assms has_shape_hstack2 [OF assms] has_shapeD [OF assms(1)] has_shapeD [OF assms(2)]
  by (simp add: hstack2)

lemma has_shape_zeros [simp]: "has_shape r c (zeros r c)"
  by (simp add: has_shape_def zeros_def nrows_def list_all_iff)

lemma has_shape_eye [simp]: "has_shape n n (eye n)"
  by (simp add: has_shape_def eye_def nrows_def list_all_iff)

declare vstack.simps [simp del] hstack.simps [simp del]

lemma power_part:
  assumes "has_shape n n Bth" "has_shape m n Fth" "has_shape m n Tth"
    and "has_shape n n Bv" "has_shape m n Fv" "has_shape m n Tv"
  shows "\<exists>TH VV S.
    vstack [map_entries Re Bth, map_entries Re Fth, map_entries Re Tth,
            map_entries Im Bth, map_entries Im Fth, map_entries Im Tth] = Inr TH \<and>
    vstack [map_entries Re Bv, map_entries Re Fv, map_entries Re Tv,
            map_entries Im Bv, map_entries Im Fv, map_entries Im Tv] = Inr VV \<and>
    hstack [TH, VV] = Inr S \<and> has_shape (2 * n + 4 * m) (2 * n) S"
proof -
  let ?th = "[map_entries Re Bth, map_entries Re Fth, map_entries Re Tth,
              map_entries Im Bth, map_entries Im Fth, map_entries Im Tth]"
  let ?v = "[map_entries Re Bv, map_entries Re Fv, map_entries Re Tv,
             map_entries Im Bv, map_entries Im Fv, map_entries Im Tv]"
  have 1: "list_all2 (\<lambda>M r. has_shape r n M) ?th [n, m, m, n, m, m]"
    using assms by simp
  have 2: "list_all2 (\<lambda>M r. has_shape r n M) ?v [n, m, m, n, m, m]"
    using assms by simp
  have ar: "n + (m + (m + (n + (m + m)))) = 2 * n + 4 * m" by simp
  have th: "vstack ?th = Inr (Matrix n (concat (map mrows ?th)))"
    by (rule vstack_ok [OF 1, THEN conjunct1]) simp
  have sth: "has_shape (2 * n + 4 * m) n (Matrix n (concat (map mrows ?th)))"
    using vstack_ok [OF 1, THEN conjunct2] by (simp add: ar)
  have v: "vstack ?v = Inr (Matrix n (concat (map mrows ?v)))"
    by (rule vstack_ok [OF 2, THEN conjunct1]) simp
  have sv: "has_shape (2 * n + 4 * m) n (Matrix n (concat (map mrows ?v)))"
    using vstack_ok [OF 2, THEN conjunct2] by (simp add: ar)
  have h: "hstack [Matrix n (concat (map mrows ?th)), Matrix n (concat (map mrows ?v))] =
           Inr (Matrix (n + n) (map2 (@) (concat (map mrows ?th)) (concat (map mrows ?v))))"
    using hstack2_ok [OF sth sv, THEN conjunct1] by (simp only: matrix.sel)
  have sh: "has_shape (2 * n + 4 * m) (2 * n)
              (Matrix (n + n) (map2 (@) (concat (map mrows ?th)) (concat (map mrows ?v))))"
    using hstack2_ok [OF sth sv, THEN conjunct2] by (simp only: matrix.sel mult_2)
  show ?thesis
    using th v h sh by blast
qed

lemma current_part:
  assumes "has_shape m n A" "has_shape m n B" "has_shape m n C" "has_shape m n D"
  shows "\<exists>IF IT IJ.
    hstack [A, B] = Inr IF \<and> hstack [C, D] = Inr IT \<and> vstack [IF, IT] = Inr IJ \<and>
    has_shape (2 * m) (2 * n) IJ"
proof -
  let ?IF = "Matrix (n + n) (map2 (@) (mrows A) (mrows B))"
  let ?IT = "Matrix (n + n) (map2 (@) (mrows C) (mrows D))"
  note f = hstack2_ok [OF assms(1,2)] and t = hstack2_ok [OF assms(3,4)]
  have 1: "list_all2 (\<lambda>M r. has_shape r (n + n) M) [?IF, ?IT] [m, m]"
    using f t by simp
  have "vstack [?IF, ?IT] = Inr (Matrix (n + n) (concat (map mrows [?IF, ?IT])))"
    by (rule vstack_ok [OF 1, THEN conjunct1]) simp
  moreover have "has_shape (2 * m) (2 * n) (Matrix (n + n) (concat (map mrows [?IF, ?IT])))"
    using vstack_ok [OF 1, THEN conjunct2] by (simp add: mult_2)
  ultimately show ?thesis using f t by blast
qed

lemma voltage_part:
  "\<exists>VJ. hstack [zeros n n, eye n] = Inr VJ \<and> has_shape n (2 * n) VJ"
  using hstack2_ok [OF has_shape_zeros has_shape_eye, of n] by (auto simp: mult_2)

lemma has_shape_Matrix: "has_shape r c M \<Longrightarrow> M = Matrix c (mrows M)"
  by (cases M) (simp add: has_shape_def)

lemma dibr_dv_shapes:
  assumes "dIbr_dV P (eppci_branch a) (Yf a) (Yt a) V = Inr (A, B, C, D, Ifr, Ito)"
    and "has_shape m n A" "has_shape m n B" "has_shape m n C" "has_shape m n D"
    and "length Ifr = m" "length Ito = m"
  shows "\<exists>A' B' C' D'. dibr_dv P a V = Inr (A', B', C', D') \<and>
           has_shape m n A' \<and> has_shape m n B' \<and> has_shape m n C' \<and> has_shape m n D'"
  unfolding dibr_dv_def assms(1)
  by (simp add: dibr_block_eq [OF assms(2) assms(6)] dibr_block_eq [OF assms(3) assms(6)]
      dibr_block_eq [OF assms(4) assms(7)] dibr_block_eq [OF assms(5) assms(7)])

text \<open>The stacked matrix with and without the current blocks: the rows of the power and
  voltage blocks are the same, the current blocks come after them, and without the gate
  the current service is not consulted.\<close>

lemma jac_stack_gate:
  assumes c: "consistent a" and sh: "pfa_shapes P a (V_spec vm dl)"
    and lv: "length vm = n_bus a" and ld: "length dl = n_bus a"
  shows "\<exists>S I. has_shape (3 * n_bus a + 4 * n_branch a) (2 * n_bus a) (Matrix (2 * n_bus a) S) \<and>
               has_shape (2 * n_branch a) (2 * n_bus a) (Matrix (2 * n_bus a) I) \<and>
               (\<forall>g. jac_stack (P\<lparr>dIbr_dV := g\<rparr>) (a\<lparr>any_i_meas := False\<rparr>) vm dl =
                      Inr (Matrix (2 * n_bus a) S)) \<and>
               jac_stack P (a\<lparr>any_i_meas := True\<rparr>) vm dl = Inr (Matrix (2 * n_bus a) (S @ I))"
proof -
  let ?V = "V_spec vm dl"
  let ?n = "n_bus a" and ?m = "n_branch a"
  have lV: "length ?V = ?n" using lv by simp
  obtain Bv Bth where b: "dSbus_dV P (Ybus a) ?V = Inr (Bv, Bth)"
    and sb: "has_shape ?n ?n Bv" "has_shape ?n ?n Bth"
    using sh by (auto simp: pfa_shapes_def split: sum.splits)
  obtain Fth Fv Tth Tv Sf St where
    f: "dSbr_dV P (eppci_branch a) (Yf a) (Yt a) ?V = Inr (Fth, Fv, Tth, Tv, Sf, St)"
    and sf: "has_shape ?m ?n Fth" "has_shape ?m ?n Fv" "has_shape ?m ?n Tth" "has_shape ?m ?n Tv"
    using sh by (auto simp: pfa_shapes_def split: sum.splits)
  obtain A B C D Ifr Ito where
    i: "dIbr_dV P (eppci_branch a) (Yf a) (Yt a) ?V = Inr (A, B, C, D, Ifr, Ito)"
    and si: "has_shape ?m ?n A" "has_shape ?m ?n B" "has_shape ?m ?n C" "has_shape ?m ?n D"
      "length Ifr = ?m" "length Ito = ?m"
    using sh by (auto simp: pfa_shapes_def split: sum.splits)
  obtain A' B' C' D' where di: "dibr_dv P a ?V = Inr (A', B', C', D')"
    and sdi: "has_shape ?m ?n A'" "has_shape ?m ?n B'" "has_shape ?m ?n C'" "has_shape ?m ?n D'"
    using dibr_dv_shapes [OF i si] by blast
  obtain TH VV SJ where th: "vstack [map_entries Re Bth, map_entries Re Fth, map_entries Re Tth,
            map_entries Im Bth, map_entries Im Fth, map_entries Im Tth] = Inr TH"
    and vv: "vstack [map_entries Re Bv, map_entries Re Fv, map_entries Re Tv,
            map_entries Im Bv, map_entries Im Fv, map_entries Im Tv] = Inr VV"
    and sj: "hstack [TH, VV] = Inr SJ" and ssj: "has_shape (2 * ?n + 4 * ?m) (2 * ?n) SJ"
    using power_part [OF sb(2) sf(1) sf(3) sb(1) sf(2) sf(4)] by blast
  obtain VJ where vj: "hstack [zeros ?n ?n, eye ?n] = Inr VJ" and svj: "has_shape ?n (2 * ?n) VJ"
    using voltage_part by blast
  obtain IFm ITm IJ where ifm: "hstack [A', B'] = Inr IFm" and itm: "hstack [C', D'] = Inr ITm"
    and ij: "vstack [IFm, ITm] = Inr IJ" and sij: "has_shape (2 * ?m) (2 * ?n) IJ"
    using current_part [OF sdi] by blast
  have l2: "list_all2 (\<lambda>M r. has_shape r (2 * ?n) M) [SJ, VJ] [2 * ?n + 4 * ?m, ?n]"
    using ssj svj by simp
  have l3: "list_all2 (\<lambda>M r. has_shape r (2 * ?n) M) [SJ, VJ, IJ] [2 * ?n + 4 * ?m, ?n, 2 * ?m]"
    using ssj svj sij by simp
  have st2: "vstack [SJ, VJ] = Inr (Matrix (2 * ?n) (mrows SJ @ mrows VJ))"
    using vstack_ok [OF l2, THEN conjunct1] by simp
  have sh2: "has_shape (3 * ?n + 4 * ?m) (2 * ?n) (Matrix (2 * ?n) (mrows SJ @ mrows VJ))"
    using vstack_ok [OF l2, THEN conjunct2] by simp
  have st3: "vstack [SJ, VJ, IJ] = Inr (Matrix (2 * ?n) ((mrows SJ @ mrows VJ) @ mrows IJ))"
    using vstack_ok [OF l3, THEN conjunct1] by simp
  have sh3: "has_shape (2 * ?m) (2 * ?n) (Matrix (2 * ?n) (mrows IJ))"
    using sij has_shape_Matrix [OF sij] by simp
  have gate0: "jac_stack (P\<lparr>dIbr_dV := g\<rparr>) (a\<lparr>any_i_meas := False\<rparr>) vm dl =
               Inr (Matrix (2 * ?n) (mrows SJ @ mrows VJ))" for g
    by (simp add: jac_stack_def voltage_eq lv ld dSbus_dv_def dSbr_dv_def dVbus_dv_def
        b f th vv sj vj st2)
  have gate1: "jac_stack P (a\<lparr>any_i_meas := True\<rparr>) vm dl =
               Inr (Matrix (2 * ?n) ((mrows SJ @ mrows VJ) @ mrows IJ))"
    using di
    by (simp add: jac_stack_def voltage_eq lv ld dSbus_dv_def dSbr_dv_def dVbus_dv_def
        dibr_dv_def b f th vv sj vj ifm itm ij st3)
  show ?thesis
    using sh2 sh3 gate0 gate1 by blast
qed

lemma pypower_shapes:
  assumes c: "consistent a" and lV: "length V = n_bus a"
  shows "pfa_shapes pypower a V"
proof -
  have sb: "has_shape (n_bus a) (n_bus a) (Ybus a)"
    and sf: "has_shape (n_branch a) (n_bus a) (Yf a)"
    and st: "has_shape (n_branch a) (n_bus a) (Yt a)"
    and f: "map fst (eppci_branch a) = fb a" and t: "map snd (eppci_branch a) = tb a"
    and lf: "length (fb a) = n_branch a" and lt: "length (tb a) = n_branch a"
    and rf: "list_all (\<lambda>i. 0 \<le> i \<and> i < int (n_bus a)) (fb a)"
    and rt: "list_all (\<lambda>i. 0 \<le> i \<and> i < int (n_bus a)) (tb a)"
    using c by (simp_all add: consistent_def)
  have lb: "length (eppci_branch a) = n_branch a" using lf f by (metis length_map)
  note nf = norm_indices_nonneg [OF rf] and nt = norm_indices_nonneg [OF rt]
  have 1: "case dSbus_dV pypower (Ybus a) V of
        Inl e \<Rightarrow> False
      | Inr (dS_dVm, dS_dVa) \<Rightarrow>
          has_shape (n_bus a) (n_bus a) dS_dVm \<and> has_shape (n_bus a) (n_bus a) dS_dVa"
    using has_shapeD [OF sb] lV by (simp add: pypower_def pypower_dSbus_dV_def Let_def)
  have 2: "case dSbr_dV pypower (eppci_branch a) (Yf a) (Yt a) V of
        Inl e \<Rightarrow> False
      | Inr (dSf_dVa, dSf_dVm, dSt_dVa, dSt_dVm, Sf, St) \<Rightarrow>
          has_shape (n_branch a) (n_bus a) dSf_dVa \<and> has_shape (n_branch a) (n_bus a) dSf_dVm \<and>
          has_shape (n_branch a) (n_bus a) dSt_dVa \<and> has_shape (n_branch a) (n_bus a) dSt_dVm"
    using has_shapeD [OF sf] has_shapeD [OF st] lV lb lf lt f t
    by (simp add: pypower_def pypower_dSbr_dV_def nf nt br_dS_dVa_def br_dS_dVm_def Let_def)
  have 3: "case dIbr_dV pypower (eppci_branch a) (Yf a) (Yt a) V of
        Inl e \<Rightarrow> False
      | Inr (dIf_dVa, dIf_dVm, dIt_dVa, dIt_dVm, Ifr, Ito) \<Rightarrow>
          has_shape (n_branch a) (n_bus a) dIf_dVa \<and> has_shape (n_branch a) (n_bus a) dIf_dVm \<and>
          has_shape (n_branch a) (n_bus a) dIt_dVa \<and> has_shape (n_branch a) (n_bus a) dIt_dVm \<and>
          length Ifr = n_branch a \<and> length Ito = n_branch a"
    using has_shapeD [OF sf] has_shapeD [OF st] lV
    by (simp add: pypower_def pypower_dIbr_dV_def Let_def)
  show ?thesis unfolding pfa_shapes_def using 1 2 3 by blast
qed

lemma pypower_ok: "consistent a \<Longrightarrow> pfa_ok pypower a"
  by (simp add: pfa_ok_def pypower_shapes)


lemma pfa_shapes_upd [simp]:
  "pfa_shapes P (a\<lparr>v := x, delta := y\<rparr>) V = pfa_shapes P a V"
  "pfa_shapes P (a\<lparr>any_i_meas := b\<rparr>) V = pfa_shapes P a V"
  by (simp_all add: pfa_shapes_def cong: sum.case_cong prod.case_cong)

lemma consistent_any_i_meas [simp]: "consistent (a\<lparr>any_i_meas := b\<rparr>) = consistent a"
  by (simp add: consistent_def)

lemma jac_stack_upd_v [simp]:
  "jac_stack P (a\<lparr>v := x, delta := y\<rparr>) vm dl = jac_stack P a vm dl"
  by (simp add: jac_stack_def dSbus_dv_def dSbr_dv_def dibr_dv_def cong: if_cong)

lemma project_upd_v [simp]: "project (a\<lparr>v := x, delta := y\<rparr>) F = project a F"
  by (simp add: project_def)

lemma has_shape_append:
  "has_shape r1 c (Matrix c S) \<Longrightarrow> has_shape r2 c (Matrix c I) \<Longrightarrow>
   has_shape (r1 + r2) c (Matrix c (S @ I))"
  by (simp add: has_shape_def nrows_def)

lemma flatnonzero_bound: "list_all (\<lambda>i. i < length msk) (flatnonzero msk)"
  by (simp add: flatnonzero_def list_all_iff)

lemma project_append:
  assumes "list_all (\<lambda>i. i < length S) (non_nan_meas_selector a)"
  shows "project a (Matrix c (S @ I)) = project a (Matrix c S)"
proof -
  have eq: "map ((!) (S @ I)) (non_nan_meas_selector a) = map ((!) S) (non_nan_meas_selector a)"
    using assms by (auto simp: list_all_iff nth_append)
  have b: "list_all (\<lambda>i. i < length S + length I) (non_nan_meas_selector a)"
    using assms by (auto simp: list_all_iff)
  show ?thesis
    by (simp add: project_def select_rows_def nrows_def eq b assms)
qed

lemma create_hx_jacobian_unfold:
  assumes c: "consistent a" and len: "length E = num_non_slack_bus a + n_bus a"
  shows "\<exists>d. length d = n_bus a \<and>
             snd (create_hx_jacobian P a E) = a\<lparr>v := drop (num_non_slack_bus a) E, delta := d\<rparr> \<and>
             fst (create_hx_jacobian P a E) =
               res_bind (jac_stack P a (drop (num_non_slack_bus a) E) d) (project a)"
proof -
  obtain d where e: "e2v a E = (Inr (drop (num_non_slack_bus a) E, d),
                         a\<lparr>v := drop (num_non_slack_bus a) E, delta := d\<rparr>)"
    and ld: "length d = n_bus a"
    using consistent_e2v [OF c len] by blast
  have pe: "project (a\<lparr>v := drop (num_non_slack_bus a) E, delta := d\<rparr>) = project a"
    by (simp add: fun_eq_iff)
  show ?thesis
    using ld by (intro exI [of _ d]) (simp add: create_hx_jacobian_def e pe)
qed


section \<open>The Jacobian: projection\<close>

text \<open>
  Claim C2. On consistent inputs (and derivative services that return blocks of the right
  shape) \<open>create_hx_jacobian\<close> succeeds; the stacked matrix \<open>F\<close> has \<open>2 n_bus\<close> columns and
  \<open>3 n_bus + 6 n_branch\<close> rows (\<open>3 n_bus + 4 n_branch\<close> without the current blocks); the result
  \<open>J\<close> has as many rows as \<open>non_nan_meas_mask\<close> has true entries and as many columns as
  \<open>delta_v_bus_mask\<close> has, and entry \<open>(i, j)\<close> of \<open>J\<close> is the entry of \<open>F\<close> in the row of the
  \<open>i\<close>-th true position of the measurement mask and the column of the \<open>j\<close>-th true position
  of the state mask, positions counted in increasing order.
\<close>

theorem create_hx_jacobian_projection:
  assumes c: "consistent a" and ok: "pfa_ok P a"
    and len: "length E = num_non_slack_bus a + n_bus a"
    and gate: "any_i_meas a \<or> no_current_slot a"
  shows "\<exists>F J.
           jac_stack P (snd (create_hx_jacobian P a E)) (v (snd (create_hx_jacobian P a E)))
             (delta (snd (create_hx_jacobian P a E))) = Inr F \<and>
           has_shape (if any_i_meas a then 3 * n_bus a + 6 * n_branch a
                      else 3 * n_bus a + 4 * n_branch a) (2 * n_bus a) F \<and>
           fst (create_hx_jacobian P a E) = Inr J \<and>
           has_shape (length (filter id (non_nan_meas_mask a)))
                     (length (filter id (delta_v_bus_mask a))) J \<and>
           (\<forall>i < length (filter id (non_nan_meas_mask a)).
            \<forall>j < length (filter id (delta_v_bus_mask a)).
              entry J i j = entry F (flatnonzero (non_nan_meas_mask a) ! i)
                                    (flatnonzero (delta_v_bus_mask a) ! j))"
proof -
  let ?n = "n_bus a" and ?m = "n_branch a"
  let ?vm = "drop (num_non_slack_bus a) E"
  obtain d where ld: "length d = ?n"
    and s: "snd (create_hx_jacobian P a E) = a\<lparr>v := ?vm, delta := d\<rparr>"
    and r: "fst (create_hx_jacobian P a E) = res_bind (jac_stack P a ?vm d) (project a)"
    using create_hx_jacobian_unfold [OF c len] by blast
  have lv: "length ?vm = ?n" using len by simp
  have sh: "pfa_shapes P a (V_spec ?vm d)"
    using ok lv by (simp add: pfa_ok_def)
  obtain S I where sS: "has_shape (3 * ?n + 4 * ?m) (2 * ?n) (Matrix (2 * ?n) S)"
    and sI: "has_shape (2 * ?m) (2 * ?n) (Matrix (2 * ?n) I)"
    and g0: "jac_stack (P\<lparr>dIbr_dV := dIbr_dV P\<rparr>) (a\<lparr>any_i_meas := False\<rparr>) ?vm d =
             Inr (Matrix (2 * ?n) S)"
    and g1: "jac_stack P (a\<lparr>any_i_meas := True\<rparr>) ?vm d = Inr (Matrix (2 * ?n) (S @ I))"
    using jac_stack_gate [OF c sh lv ld] by blast
  have rsel: "non_nan_meas_selector a = flatnonzero (non_nan_meas_mask a)"
    and csel: "delta_v_bus_selector a = flatnonzero (delta_v_bus_mask a)"
    and lr: "length (non_nan_meas_mask a) = 3 * ?n + 6 * ?m"
    and lc: "length (delta_v_bus_mask a) = 2 * ?n"
    using c by (simp_all add: consistent_def)
  define F where "F = (if any_i_meas a then Matrix (2 * ?n) (S @ I) else Matrix (2 * ?n) S)"
  define R where "R = (if any_i_meas a then 3 * ?n + 6 * ?m else 3 * ?n + 4 * ?m)"
  have jF: "jac_stack P a ?vm d = Inr F"
  proof (cases "any_i_meas a")
    case True
    then have "a\<lparr>any_i_meas := True\<rparr> = a" by simp
    with g1 True show ?thesis by (simp add: F_def)
  next
    case False
    then have "a\<lparr>any_i_meas := False\<rparr> = a" by simp
    with g0 False show ?thesis by (simp add: F_def)
  qed
  have ar: "3 * ?n + 4 * ?m + 2 * ?m = 3 * ?n + 6 * ?m" by simp
  have sSI: "has_shape (3 * ?n + 6 * ?m) (2 * ?n) (Matrix (2 * ?n) (S @ I))"
    using has_shape_append [OF sS sI] by (simp only: ar)
  have sF: "has_shape R (2 * ?n) F"
    using sS sSI by (simp add: F_def R_def)
  have rows: "list_all (\<lambda>i. i < R) (non_nan_meas_selector a)"
  proof (cases "any_i_meas a")
    case True
    then show ?thesis using flatnonzero_bound [of "non_nan_meas_mask a"] by (simp add: R_def rsel lr)
  next
    case False
    then show ?thesis using gate by (simp add: R_def rsel no_current_slot_def)
  qed
  have cols: "list_all (\<lambda>j. j < 2 * ?n) (delta_v_bus_selector a)"
    using flatnonzero_bound [of "delta_v_bus_mask a"] by (simp add: csel lc)
  note pj = project_eq [OF sF rows cols]
  show ?thesis
    using jF sF by (simp add: s r pj rsel csel length_flatnonzero R_def)
qed


section \<open>The Jacobian: the gate on current measurements\<close>

text \<open>
  Claim C6. With \<open>any_i_meas\<close> false the result does not depend on the current-derivative
  service at all (that service is not called), and the stacked matrix consists of the
  \<open>3 n_bus + 4 n_branch\<close> rows of the power and voltage blocks. If no current-magnitude slot
  is observed, the projected Jacobian is the one obtained with the current blocks included.
\<close>

theorem any_i_meas_gate:
  assumes c: "consistent a" and ok: "pfa_ok P a"
    and len: "length E = num_non_slack_bus a + n_bus a"
    and nc: "no_current_slot a"
  shows "(\<forall>g. create_hx_jacobian (P\<lparr>dIbr_dV := g\<rparr>) (a\<lparr>any_i_meas := False\<rparr>) E =
              create_hx_jacobian P (a\<lparr>any_i_meas := False\<rparr>) E) \<and>
         (\<exists>F. jac_stack P (a\<lparr>any_i_meas := False\<rparr>)
                 (v (snd (create_hx_jacobian P (a\<lparr>any_i_meas := False\<rparr>) E)))
                 (delta (snd (create_hx_jacobian P (a\<lparr>any_i_meas := False\<rparr>) E))) = Inr F \<and>
              has_shape (3 * n_bus a + 4 * n_branch a) (2 * n_bus a) F) \<and>
         (\<exists>J. fst (create_hx_jacobian P (a\<lparr>any_i_meas := False\<rparr>) E) = Inr J \<and>
              fst (create_hx_jacobian P (a\<lparr>any_i_meas := True\<rparr>) E) = Inr J)"
proof -
  let ?n = "n_bus a" and ?m = "n_branch a"
  let ?vm = "drop (num_non_slack_bus a) E"
  let ?a0 = "a\<lparr>any_i_meas := False\<rparr>" and ?a1 = "a\<lparr>any_i_meas := True\<rparr>"
  have indep: "create_hx_jacobian (P\<lparr>dIbr_dV := g\<rparr>) ?a0 E = create_hx_jacobian P ?a0 E" for g
    by (auto simp: create_hx_jacobian_def e2v_def Let_def jac_stack_def dSbus_dv_def dSbr_dv_def
        split: sum.splits)
  have c0: "consistent ?a0" and c1: "consistent ?a1" using c by simp_all
  have len0: "length E = num_non_slack_bus ?a0 + n_bus ?a0"
    and len1: "length E = num_non_slack_bus ?a1 + n_bus ?a1" using len by simp_all
  obtain d0 where ld0: "length d0 = ?n"
    and s0: "snd (create_hx_jacobian P ?a0 E) = ?a0\<lparr>v := ?vm, delta := d0\<rparr>"
    and r0: "fst (create_hx_jacobian P ?a0 E) = res_bind (jac_stack P ?a0 ?vm d0) (project ?a0)"
    using create_hx_jacobian_unfold [OF c0 len0, of P] by auto
  obtain d1 where ld1: "length d1 = ?n"
    and s1: "snd (create_hx_jacobian P ?a1 E) = ?a1\<lparr>v := ?vm, delta := d1\<rparr>"
    and r1: "fst (create_hx_jacobian P ?a1 E) = res_bind (jac_stack P ?a1 ?vm d1) (project ?a1)"
    using create_hx_jacobian_unfold [OF c1 len1, of P] by auto
  have "delta (snd (e2v ?a0 E)) = delta (snd (e2v ?a1 E))"
    by (auto simp: e2v_def Let_def split: sum.splits)
  then have dd: "d1 = d0"
    using s0 s1 by (simp add: snd_create_hx_jacobian)
  have lv: "length ?vm = ?n" using len by simp
  have sh: "pfa_shapes P a (V_spec ?vm d0)"
    using ok lv by (simp add: pfa_ok_def)
  obtain S I where sS: "has_shape (3 * ?n + 4 * ?m) (2 * ?n) (Matrix (2 * ?n) S)"
    and g0: "jac_stack (P\<lparr>dIbr_dV := dIbr_dV P\<rparr>) ?a0 ?vm d0 = Inr (Matrix (2 * ?n) S)"
    and g1: "jac_stack P ?a1 ?vm d0 = Inr (Matrix (2 * ?n) (S @ I))"
    using jac_stack_gate [OF c sh lv ld0] by blast
  have rsel: "non_nan_meas_selector a = flatnonzero (non_nan_meas_mask a)"
    and csel: "delta_v_bus_selector a = flatnonzero (delta_v_bus_mask a)"
    and lc: "length (delta_v_bus_mask a) = 2 * ?n"
    using c by (simp_all add: consistent_def)
  have lS: "length S = 3 * ?n + 4 * ?m"
    using sS by (simp add: has_shape_def nrows_def)
  have rows: "list_all (\<lambda>i. i < length S) (non_nan_meas_selector a)"
    using nc by (simp add: no_current_slot_def rsel lS)
  have rows': "list_all (\<lambda>i. i < 3 * ?n + 4 * ?m) (non_nan_meas_selector a)"
    using rows lS by simp
  have cols: "list_all (\<lambda>j. j < 2 * ?n) (delta_v_bus_selector a)"
    using flatnonzero_bound [of "delta_v_bus_mask a"] by (simp add: csel lc)
  have p0: "project ?a0 = project a" and p1: "project ?a1 = project a"
    by (simp_all add: project_def fun_eq_iff)
  have j0: "fst (create_hx_jacobian P ?a0 E) = project a (Matrix (2 * ?n) S)"
    using g0 by (simp add: r0 p0)
  have j1: "fst (create_hx_jacobian P ?a1 E) = project a (Matrix (2 * ?n) S)"
    using g1 project_append [OF rows] by (simp add: r1 p1 dd)
  have F: "jac_stack P ?a0 (v (snd (create_hx_jacobian P ?a0 E)))
             (delta (snd (create_hx_jacobian P ?a0 E))) = Inr (Matrix (2 * ?n) S)"
    using g0 by (simp add: s0)
  show ?thesis
    using indep F sS j0 j1 project_eq [OF sS rows' cols] by auto
qed

section \<open>Current-magnitude derivatives\<close>

text \<open>
  Claim C4. Let the current service return the complex derivative blocks and the branch
  currents \<open>I_from = Yf V\<close>, \<open>I_to = Yt V\<close>. Then every entry \<open>(i, j)\<close> of every block that
  \<open>_dibr_dv\<close> returns is \<open>(|I\<^sub>i + 10\<^sup>-\<^sup>5 \<cdot> dI\<^sub>i\<^sub>j| - |I\<^sub>i|) / 10\<^sup>-\<^sup>5\<close>: a forward difference with the
  one fixed step \<open>10\<^sup>-\<^sup>5\<close>, whatever the voltages are.
\<close>

theorem dibr_dv_finite_difference:
  assumes P: "dIbr_dV P (eppci_branch a) (Yf a) (Yt a) V =
                Inr (dIf_dth, dIf_dv, dIt_dth, dIt_dv, Ifr, Ito)"
    and sh: "has_shape m n dIf_dth" "has_shape m n dIf_dv"
            "has_shape m n dIt_dth" "has_shape m n dIt_dv"
    and Ifr: "Ifr = map (I_spec (Yf a) V) [0..<m]"
    and Ito: "Ito = map (I_spec (Yt a) V) [0..<m]"
  shows "\<exists>dif_dth dif_dv dit_dth dit_dv.
           dibr_dv P a V = Inr (dif_dth, dif_dv, dit_dth, dit_dv) \<and>
           has_shape m n dif_dth \<and> has_shape m n dif_dv \<and>
           has_shape m n dit_dth \<and> has_shape m n dit_dv \<and>
           (\<forall>i<m. \<forall>j<n.
              entry dif_dth i j =
                (cmod (I_spec (Yf a) V i + complex_of_real (1 / 10 ^ 5) * entry dIf_dth i j)
                 - cmod (I_spec (Yf a) V i)) / (1 / 10 ^ 5) \<and>
              entry dif_dv i j =
                (cmod (I_spec (Yf a) V i + complex_of_real (1 / 10 ^ 5) * entry dIf_dv i j)
                 - cmod (I_spec (Yf a) V i)) / (1 / 10 ^ 5) \<and>
              entry dit_dth i j =
                (cmod (I_spec (Yt a) V i + complex_of_real (1 / 10 ^ 5) * entry dIt_dth i j)
                 - cmod (I_spec (Yt a) V i)) / (1 / 10 ^ 5) \<and>
              entry dit_dv i j =
                (cmod (I_spec (Yt a) V i + complex_of_real (1 / 10 ^ 5) * entry dIt_dv i j)
                 - cmod (I_spec (Yt a) V i)) / (1 / 10 ^ 5))"
proof -
  have lf: "length Ifr = m" and lt: "length Ito = m"
    by (simp_all add: Ifr Ito)
  have "dibr_dv P a V =
        Inr (build m n (\<lambda>i j. (cmod (Ifr ! i + complex_of_real (1 / 10 ^ 5) * entry dIf_dth i j)
                                  - cmod (Ifr ! i)) / (1 / 10 ^ 5)),
             build m n (\<lambda>i j. (cmod (Ifr ! i + complex_of_real (1 / 10 ^ 5) * entry dIf_dv i j)
                                  - cmod (Ifr ! i)) / (1 / 10 ^ 5)),
             build m n (\<lambda>i j. (cmod (Ito ! i + complex_of_real (1 / 10 ^ 5) * entry dIt_dth i j)
                                  - cmod (Ito ! i)) / (1 / 10 ^ 5)),
             build m n (\<lambda>i j. (cmod (Ito ! i + complex_of_real (1 / 10 ^ 5) * entry dIt_dv i j)
                                  - cmod (Ito ! i)) / (1 / 10 ^ 5)))"
    unfolding dibr_dv_def P
    by (simp add: dibr_block_eq [OF sh(1) lf] dibr_block_eq [OF sh(2) lf]
        dibr_block_eq [OF sh(3) lt] dibr_block_eq [OF sh(4) lt])
  then show ?thesis
    by (simp add: Ifr Ito)
qed

section \<open>The Jacobian on the two-bus network\<close>

lemmas ex2_defs = ex_algebra2_def ex_eppci2_def ex_eppci_def ex_Y_def ex_E_def BaseAlgebra_init_def

lemma ex2_consistent: "consistent ex_algebra2"
  by (simp add: consistent_def) (simp add: ex2_defs has_shape_def nrows_def)

lemma ex2_len: "length ex_E = num_non_slack_bus ex_algebra2 + n_bus ex_algebra2"
  by (simp add: ex2_defs)

lemma ex2_no_current: "no_current_slot ex_algebra2"
  by (simp add: no_current_slot_def ex2_defs flatnonzero_def upt_conv_Cons)

theorem create_hx_jacobian_projection_witness:
  "consistent ex_algebra \<and> pfa_ok pypower ex_algebra \<and>
   length ex_E = num_non_slack_bus ex_algebra + n_bus ex_algebra \<and>
   (any_i_meas ex_algebra \<or> no_current_slot ex_algebra) \<and>
   (\<exists>J. fst (create_hx_jacobian pypower ex_algebra ex_E) = Inr J \<and> has_shape 4 3 J)"
proof -
  have g: "any_i_meas ex_algebra \<or> no_current_slot ex_algebra"
    by (simp add: ex_defs)
  note t = create_hx_jacobian_projection [OF ex_consistent pypower_ok [OF ex_consistent] ex_len g]
  have n: "length (filter id (non_nan_meas_mask ex_algebra)) = 4"
    "length (filter id (delta_v_bus_mask ex_algebra)) = 3"
    by (simp_all add: ex_defs)
  from t show ?thesis
    using ex_consistent pypower_ok [OF ex_consistent] ex_len g unfolding n by blast
qed

theorem any_i_meas_gate_witness:
  "consistent ex_algebra2 \<and> pfa_ok pypower ex_algebra2 \<and>
   length ex_E = num_non_slack_bus ex_algebra2 + n_bus ex_algebra2 \<and>
   no_current_slot ex_algebra2 \<and> \<not> any_i_meas ex_algebra2 \<and>
   (\<exists>J. fst (create_hx_jacobian pypower ex_algebra2 ex_E) = Inr J \<and>
        fst (create_hx_jacobian pypower (ex_algebra2\<lparr>any_i_meas := True\<rparr>) ex_E) = Inr J)"
proof -
  note t = any_i_meas_gate [OF ex2_consistent pypower_ok [OF ex2_consistent] ex2_len
      ex2_no_current]
  have f: "\<not> any_i_meas ex_algebra2" by (simp add: ex2_defs)
  then have e: "ex_algebra2\<lparr>any_i_meas := False\<rparr> = ex_algebra2" by simp
  from t show ?thesis
    using ex2_consistent pypower_ok [OF ex2_consistent] ex2_len ex2_no_current f
    unfolding e by blast
qed

lemma cmod_ii_scaled: "cmod (\<i> + complex_of_real c * \<i>) = \<bar>1 + c\<bar>"
  by (simp add: cmod_def)

lemma cmod_ii_scaled': "cmod (\<i> + complex_of_real c * (- \<i>)) = \<bar>1 - c\<bar>"
  by (simp add: cmod_def)

lemma ex_dIbr:
  "dIbr_dV pypower (eppci_branch ex_algebra) (Yf ex_algebra) (Yt ex_algebra) [1, 2] =
     Inr (build (nrows (Yf ex_algebra)) (length [1, 2 :: complex])
            (\<lambda>i j. entry (Yf ex_algebra) i j * \<i> * [1, 2] ! j),
          build (nrows (Yf ex_algebra)) (length [1, 2 :: complex])
            (\<lambda>i j. entry (Yf ex_algebra) i j * Vnorm ([1, 2] ! j)),
          build (nrows (Yt ex_algebra)) (length [1, 2 :: complex])
            (\<lambda>i j. entry (Yt ex_algebra) i j * \<i> * [1, 2] ! j),
          build (nrows (Yt ex_algebra)) (length [1, 2 :: complex])
            (\<lambda>i j. entry (Yt ex_algebra) i j * Vnorm ([1, 2] ! j)),
          map (I_spec (Yf ex_algebra) [1, 2]) [0..<nrows (Yf ex_algebra)],
          map (I_spec (Yt ex_algebra) [1, 2]) [0..<nrows (Yt ex_algebra)])"
proof -
  have n: "ncols (Yf ex_algebra) = length [1, 2 :: complex]"
    "ncols (Yt ex_algebra) = length [1, 2 :: complex]"
    by (simp_all add: ex_defs)
  show ?thesis
    unfolding pypower_def pypower_dIbr_dV_def Let_def using n by simp
qed


theorem dibr_dv_finite_difference_witness:
  "\<exists>A B C D. dibr_dv pypower ex_algebra [1, 2] = Inr (A, B, C, D) \<and>
             entry B 0 0 = - 1 \<and> entry B 0 1 = 1"
proof -
  have m: "nrows (Yf ex_algebra) = 1" "nrows (Yt ex_algebra) = 1"
    by (simp_all add: ex_defs nrows_def)
  have l: "length [1, 2 :: complex] = 2" by simp
  note P = ex_dIbr [unfolded m l]
  note t = dibr_dv_finite_difference [OF P has_shape_build has_shape_build
      has_shape_build has_shape_build refl refl]
  have I: "I_spec (Yf ex_algebra) [1, 2] 0 = \<i>"
    by (simp add: I_spec_def entry_def ex_defs lessThan_nat_numeral lessThan_Suc)
  have Y: "entry (Yf ex_algebra) 0 0 = - \<i>" "entry (Yf ex_algebra) 0 (Suc 0) = \<i>"
    by (simp_all add: entry_def ex_defs)
  have N: "Vnorm 1 = 1" "Vnorm 2 = 1"
    by (simp_all add: Vnorm_def)
  from t obtain A B C D where r: "dibr_dv pypower ex_algebra [1, 2] = Inr (A, B, C, D)"
    and f: "\<forall>i<1. \<forall>j<2.
      entry A i j =
        (cmod (I_spec (Yf ex_algebra) [1, 2] i + complex_of_real (1 / 10 ^ 5) *
           entry (build 1 2 (\<lambda>i j. entry (Yf ex_algebra) i j * \<i> * [1, 2] ! j)) i j)
         - cmod (I_spec (Yf ex_algebra) [1, 2] i)) / (1 / 10 ^ 5) \<and>
      entry B i j =
        (cmod (I_spec (Yf ex_algebra) [1, 2] i + complex_of_real (1 / 10 ^ 5) *
           entry (build 1 2 (\<lambda>i j. entry (Yf ex_algebra) i j * Vnorm ([1, 2] ! j))) i j)
         - cmod (I_spec (Yf ex_algebra) [1, 2] i)) / (1 / 10 ^ 5) \<and>
      entry C i j =
        (cmod (I_spec (Yt ex_algebra) [1, 2] i + complex_of_real (1 / 10 ^ 5) *
           entry (build 1 2 (\<lambda>i j. entry (Yt ex_algebra) i j * \<i> * [1, 2] ! j)) i j)
         - cmod (I_spec (Yt ex_algebra) [1, 2] i)) / (1 / 10 ^ 5) \<and>
      entry D i j =
        (cmod (I_spec (Yt ex_algebra) [1, 2] i + complex_of_real (1 / 10 ^ 5) *
           entry (build 1 2 (\<lambda>i j. entry (Yt ex_algebra) i j * Vnorm ([1, 2] ! j))) i j)
         - cmod (I_spec (Yt ex_algebra) [1, 2] i)) / (1 / 10 ^ 5)"
    by (elim exE conjE) (rule that)
  have e0: "entry (build 1 2 (\<lambda>i j. entry (Yf ex_algebra) i j * Vnorm ([1, 2] ! j))) 0 0 = - \<i>"
    by (simp add: Y N)
  have e1: "entry (build 1 2 (\<lambda>i j. entry (Yf ex_algebra) i j * Vnorm ([1, 2] ! j))) 0 1 = \<i>"
    by (simp add: Y N)
  have "0 < (1::nat)" "0 < (2::nat)" "1 < (2::nat)" by simp_all
  note b0 = f [rule_format, OF \<open>0 < (1::nat)\<close> \<open>0 < (2::nat)\<close>, THEN conjunct2, THEN conjunct1]
  note b1 = f [rule_format, OF \<open>0 < (1::nat)\<close> \<open>1 < (2::nat)\<close>, THEN conjunct2, THEN conjunct1]
  have "entry B 0 0 = - 1"
    unfolding b0 e0 I using cmod_ii_scaled' [of "1 / 10 ^ 5"] by simp
  moreover have "entry B 0 1 = 1"
    unfolding b1 e1 I using cmod_ii_scaled [of "1 / 10 ^ 5"] by simp
  ultimately show ?thesis using r by blast
qed

section \<open>The decoupled variant\<close>

lemma vstack6_ok:
  assumes "has_shape n c M1" "has_shape m c M2" "has_shape m c M3"
    and "has_shape n c M4" "has_shape m c M5" "has_shape m c M6"
  shows "\<exists>TH. vstack [M1, M2, M3, M4, M5, M6] = Inr TH \<and> has_shape (2 * n + 4 * m) c TH"
proof -
  have 1: "list_all2 (\<lambda>M r. has_shape r c M) [M1, M2, M3, M4, M5, M6] [n, m, m, n, m, m]"
    using assms by simp
  have ar: "n + (m + (m + (n + (m + m)))) = 2 * n + 4 * m" by simp
  have "vstack [M1, M2, M3, M4, M5, M6] =
        Inr (Matrix c (concat (map mrows [M1, M2, M3, M4, M5, M6])))"
    by (rule vstack_ok [OF 1, THEN conjunct1]) simp
  moreover have "has_shape (2 * n + 4 * m) c (Matrix c (concat (map mrows [M1, M2, M3, M4, M5, M6])))"
    using vstack_ok [OF 1, THEN conjunct2] by (simp add: ar)
  ultimately show ?thesis by blast
qed

lemma hstack2_ex:
  assumes "has_shape r c1 A" and "has_shape r c2 B"
  shows "\<exists>M. hstack [A, B] = Inr M \<and> has_shape r (c1 + c2) M"
  using hstack2_ok [OF assms] by blast

lemma has_shape_zeros_like [simp]: "has_shape r c (zeros_like M) = has_shape r c M"
  by (simp add: zeros_like_def)

text \<open>Stacking fails as soon as the last two blocks differ in their number of columns.\<close>

lemma vstack3_mismatch:
  "ncols B \<noteq> ncols C \<Longrightarrow> vstack [A, B, C] = Inl ValueError"
  by (simp add: vstack.simps)

lemma ncols_np_c_sparse [simp]: "ncols (np_c_sparse Ms) = length Ms"
  by (simp add: np_c_sparse_def)

lemma ncols_map_entries [simp]: "ncols (map_entries f M) = ncols M"
  by (simp add: map_entries_def)

lemma decoupled_jacobian_raises:
  assumes c: "consistent a" and sh: "pfa_shapes P a (V_spec vm dl)"
    and lv: "length vm = n_bus a" and ld: "length dl = n_bus a"
    and n1: "n_bus a \<noteq> 1"
  shows "decoupled_jacobian_of P a vm dl = Inl ValueError"
proof -
  let ?V = "V_spec vm dl"
  let ?n = "n_bus a" and ?m = "n_branch a"
  obtain Bv Bth where b: "dSbus_dV P (Ybus a) ?V = Inr (Bv, Bth)"
    and sb: "has_shape ?n ?n Bv" "has_shape ?n ?n Bth"
    using sh by (auto simp: pfa_shapes_def split: sum.splits)
  obtain Fth Fv Tth Tv Sf St where
    f: "dSbr_dV P (eppci_branch a) (Yf a) (Yt a) ?V = Inr (Fth, Fv, Tth, Tv, Sf, St)"
    and sf: "has_shape ?m ?n Fth" "has_shape ?m ?n Fv" "has_shape ?m ?n Tth" "has_shape ?m ?n Tv"
    using sh by (auto simp: pfa_shapes_def split: sum.splits)
  obtain A B C D Ifr Ito where
    i: "dIbr_dV P (eppci_branch a) (Yf a) (Yt a) ?V = Inr (A, B, C, D, Ifr, Ito)"
    and si: "has_shape ?m ?n A" "has_shape ?m ?n B" "has_shape ?m ?n C" "has_shape ?m ?n D"
      "length Ifr = ?m" "length Ito = ?m"
    using sh by (auto simp: pfa_shapes_def split: sum.splits)
  obtain A' B' C' D' where di: "dibr_dv P a ?V = Inr (A', B', C', D')"
    and sdi: "has_shape ?m ?n A'" "has_shape ?m ?n B'" "has_shape ?m ?n C'" "has_shape ?m ?n D'"
    using dibr_dv_shapes [OF i si] by blast
  obtain TH where th: "vstack [map_entries (\<lambda>x. complex_of_real (Re x)) Bth,
                     map_entries (\<lambda>x. complex_of_real (Re x)) Fth,
                     map_entries (\<lambda>x. complex_of_real (Re x)) Tth,
                     zeros_like Bth, zeros_like Fth, zeros_like Tth] = Inr TH"
    and sth: "has_shape (2 * ?n + 4 * ?m) ?n TH"
    using vstack6_ok [of ?n ?n _ ?m] sb sf by (metis has_shape_map_entries has_shape_zeros_like)
  obtain VV where vv: "vstack [zeros_like Bv, zeros_like Fv, zeros_like Tv,
                     map_entries (\<lambda>x. complex_of_real (Im x)) Bv,
                     map_entries (\<lambda>x. complex_of_real (Im x)) Fv,
                     map_entries (\<lambda>x. complex_of_real (Im x)) Tv] = Inr VV"
    and svv: "has_shape (2 * ?n + 4 * ?m) ?n VV"
    using vstack6_ok [of ?n ?n _ ?m] sb sf by (metis has_shape_map_entries has_shape_zeros_like)
  obtain SJ where sj: "hstack [TH, VV] = Inr SJ" and ssj: "has_shape (2 * ?n + 4 * ?m) (?n + ?n) SJ"
    using hstack2_ex [OF sth svv] by blast
  obtain IFm ITm IJ where ifm: "hstack [A', B'] = Inr IFm" and itm: "hstack [C', D'] = Inr ITm"
    and ij: "vstack [IFm, ITm] = Inr IJ" and sij: "has_shape (2 * ?m) (2 * ?n) IJ"
    using current_part [OF sdi] by blast
  have nc: "ncols (np_c_sparse [zeros ?n ?n, eye ?n]) \<noteq>
            ncols (map_entries (\<lambda>x. Number (complex_of_real x)) IJ)"
    using has_shapeD [OF sij] n1 by simp
  show ?thesis
    by (simp add: decoupled_jacobian_of_def voltage_eq lv ld dSbus_dv_def dSbr_dv_def
        dVbus_dv_def np_r_def np_c_def b f di th vv sj ifm itm ij Let_def
        vstack3_mismatch [OF nc])
qed


lemma create_hx_jacobian_decoupled_raises:
  assumes c: "consistent a" and ok: "pfa_ok P a"
    and len: "length E = num_non_slack_bus a + n_bus a"
    and n1: "n_bus a \<noteq> 1"
  shows "fst (create_hx_jacobian_decoupled P a E) = Inl ValueError"
proof -
  obtain d where e: "e2v a E = (Inr (drop (num_non_slack_bus a) E, d),
                         a\<lparr>v := drop (num_non_slack_bus a) E, delta := d\<rparr>)"
    and ld: "length d = n_bus a"
    using consistent_e2v [OF c len] by blast
  let ?a' = "a\<lparr>v := drop (num_non_slack_bus a) E, delta := d\<rparr>"
  have c': "consistent ?a'" using consistent_delta [OF c ld] by simp
  have lv: "length (drop (num_non_slack_bus a) E) = n_bus ?a'" using len by simp
  have sh: "pfa_shapes P ?a' (V_spec (drop (num_non_slack_bus a) E) d)"
    using ok lv by (simp add: pfa_ok_def)
  have "decoupled_jacobian_of P ?a' (drop (num_non_slack_bus a) E) d = Inl ValueError"
    using decoupled_jacobian_raises [OF c' sh lv] ld n1 by simp
  then show ?thesis by (simp add: create_hx_jacobian_decoupled_def e)
qed

text \<open>
  Claim C5 says that the decoupled Jacobian has zero active-power/magnitude and
  reactive-power/angle blocks and agrees with the full Jacobian on every other block, the
  voltage-magnitude identity block included. The code does not get that far: the voltage
  blocks reach \<^verbatim>\<open>np.c_\<close> as sparse matrices, the row of two objects it makes of them has two
  columns where the power and current blocks have \<open>2 n_bus\<close>, and \<^verbatim>\<open>np.r_\<close> raises ValueError
  on every network with more than one bus (\<open>create_hx_jacobian_decoupled_raises\<close>). On the
  two-bus network:
\<close>

theorem decoupled_raises_on_two_bus:
  "fst (create_hx_jacobian_decoupled pypower ex_algebra ex_E) = Inl ValueError"
proof -
  have "n_bus ex_algebra \<noteq> 1" by (simp add: ex_defs)
  then show ?thesis
    using ex_consistent pypower_ok [OF ex_consistent] ex_len
    by (rule create_hx_jacobian_decoupled_raises [rotated 3])
qed

section \<open>The constraint Jacobian and the base power\<close>

subsection \<open>Closed forms of the matrix operations\<close>








subsection \<open>Derivatives of the bus injections\<close>













lemma cx_jacobian_of_baseMVA [simp]:
  "cx_jacobian_of P (a\<lparr>baseMVA := b\<rparr>) vm dl p_idx q_idx = cx_jacobian_of P a vm dl p_idx q_idx"
  by (simp add: cx_jacobian_of_def dSbus_dv_def)

lemma cx_jacobian_of_upd_v [simp]:
  "cx_jacobian_of P (a\<lparr>v := x, delta := y\<rparr>) vm dl p_idx q_idx =
   cx_jacobian_of P a vm dl p_idx q_idx"
  by (simp add: cx_jacobian_of_def dSbus_dv_def)



subsection \<open>The scaling mismatch\<close>




text \<open>At the present value of the state variable, \<open>cx_at\<close> is what \<open>create_cx\<close> returns.\<close>

lemma create_cx_is_cx_at:
  assumes c: "consistent a" and len: "length E = num_non_slack_bus a + n_bus a"
    and cc: "cc < 2 * n_bus a"
  shows "fst (create_cx a E p_idx q_idx) =
         (let vm = v (snd (create_cx a E p_idx q_idx));
              dl = delta (snd (create_cx a E p_idx q_idx))
          in if cc < length dl then cx_of a vm (dl[cc := state_value vm dl cc]) p_idx q_idx
             else cx_of a (vm[cc - length dl := state_value vm dl cc]) dl p_idx q_idx)"
proof -
  define vm where "vm = drop (num_non_slack_bus a) E"
  obtain d where e: "e2v a E = (Inr (vm, d), a\<lparr>v := vm, delta := d\<rparr>)"
    and ld: "length d = n_bus a"
    using consistent_e2v [OF c len] unfolding vm_def by blast
  have lv: "length vm = n_bus a" using len by (simp add: vm_def)
  have u: "cx_of (a\<lparr>v := vm, delta := d\<rparr>) = cx_of a"
    by (simp add: cx_of_def fun_eq_iff)
  show ?thesis
    using cc ld lv
    by (simp add: create_cx_def e u state_value_def nth_append Let_def)
qed


end
